theory Spec2Isabelle
  imports Main "HOL-Library.Word"
begin

unbundle bit_operations_syntax

section \<open>BlueSerial.cpp: the serial protocol engine of BlueDisplay on the AVR\<close>

text \<open>
  The file \<^verbatim>\<open>arduino/libraries/BlueDisplay/BlueSerial.cpp\<close> is compiled for the AVR
  (it programs \<^verbatim>\<open>UCSR0A\<close>, \<^verbatim>\<open>UDR0\<close>, \<^verbatim>\<open>UBRR0H\<close> and installs \<^verbatim>\<open>ISR(USART_RX_vect)\<close>,
  and it passes a buffer address through \<^verbatim>\<open>va_arg(argp, int)\<close>). On that target
  \<^verbatim>\<open>int\<close> and pointers are 16 bits wide, \<^verbatim>\<open>uint8_t\<close> is 8 bits, and multi-byte objects
  are stored low byte first. Machine integers are words of that width: \<open>+\<close> and \<open>*\<close>
  wrap around, \<open><\<close> compares unsigned, \<open><s\<close> compares in two's complement. C leaves
  the overflow of an \<^verbatim>\<open>int\<close> undefined; the model takes the two's complement result that
  the arithmetic of the AVR produces. A conversion to a narrower or signed type keeps the
  low bits. \<^verbatim>\<open>USE_SIMPLE_SERIAL\<close> is defined in the file, so the code of the \<^verbatim>\<open>#ifdef\<close>
  branches is what is modelled.
\<close>

type_synonym uint8_t = "8 word"
type_synonym uint16_t = "16 word"
type_synonym int_avr = "16 word"

subsection \<open>Constants of the absent headers\<close>

text \<open>
  \<^verbatim>\<open>BlueSerial.h\<close> and \<^verbatim>\<open>EventHandler.h\<close> are not part of the sources at hand. The macros
  they define are parameters of the model, collected in one record; every function
  below takes it as its first argument. \<open>DO_NOT_NEED_BASIC_TOUCH\<close> records whether the
  macro of that name is defined.
\<close>

record constants =
  SYNC_TOKEN :: uint8_t
  EVENT_TAG_NO_EVENT :: uint8_t
  EVENT_TAG_FIRST_CALLBACK_ACTION_CODE :: uint8_t
  EVENT_TAG_TOUCH_ACTION_DOWN :: uint8_t
  TOUCH_CALLBACK_DATA_SIZE :: nat
  DO_NOT_NEED_BASIC_TOUCH :: bool

text \<open>Lines 38, 46, 125 and 126 of the file.\<close>

definition DATAFIELD_TAG_BYTE :: uint16_t where
  "DATAFIELD_TAG_BYTE = 0x01"

definition MAX_NUMBER_OF_ARGS :: nat where
  "MAX_NUMBER_OF_ARGS = 12"

definition RECEIVE_TOUCH_OR_DISPLAY_DATA_SIZE :: nat where
  "RECEIVE_TOUCH_OR_DISPLAY_DATA_SIZE = 4"

definition RECEIVE_CALLBACK_DATA_SIZE :: "constants \<Rightarrow> nat" where
  "RECEIVE_CALLBACK_DATA_SIZE c = TOUCH_CALLBACK_DATA_SIZE c"

text \<open>
  The receive buffer has \<open>RECEIVE_CALLBACK_DATA_SIZE\<close> bytes and must hold a touch
  payload too; \<open>tDataSize\<close> is a \<^verbatim>\<open>uint8_t\<close>. The constants are usable when both fit.
\<close>

definition constants_ok :: "constants \<Rightarrow> bool" where
  "constants_ok c \<longleftrightarrow>
     RECEIVE_TOUCH_OR_DISPLAY_DATA_SIZE \<le> RECEIVE_CALLBACK_DATA_SIZE c \<and>
     RECEIVE_CALLBACK_DATA_SIZE c < 256"

text \<open>
  A concrete instance for the examples: the sync byte \<open>0xA5\<close> of the comment above
  \<^verbatim>\<open>sendUSART5Args\<close>, the 12 bytes of the comment above \<^verbatim>\<open>sReceiveBuffer\<close>, and tag
  values chosen here (touch down 0, callbacks from \<open>0x20\<close> on, no event \<open>0xFF\<close>).
\<close>

definition avr_constants :: constants where
  "avr_constants = \<lparr>SYNC_TOKEN = 0xA5, EVENT_TAG_NO_EVENT = 0xFF,
     EVENT_TAG_FIRST_CALLBACK_ACTION_CODE = 0x20, EVENT_TAG_TOUCH_ACTION_DOWN = 0x00,
     TOUCH_CALLBACK_DATA_SIZE = 12, DO_NOT_NEED_BASIC_TOUCH = False\<rparr>"

subsection \<open>Faults\<close>

text \<open>
  Where C leaves the behaviour undefined the model returns a fault: a store outside
  \<^verbatim>\<open>sReceiveBuffer\<close> or \<^verbatim>\<open>tParamBuffer\<close>, a \<^verbatim>\<open>memcpy\<close> longer than its source or its
  destination, a \<^verbatim>\<open>va_arg\<close> with no argument left, and a transmit loop that reads past
  the words written to \<^verbatim>\<open>tParamBuffer\<close>.
\<close>

datatype fault =
  StoreOutsideReceiveBuffer
  | MemcpyOutOfBounds
  | StoreOutsideParamBuffer
  | VaArgMissing
  | ReadOutsideParamBuffer

subsection \<open>Receive state\<close>

text \<open>
  Modelled from the spec: \<^verbatim>\<open>struct BluetoothEvent\<close> of \<^verbatim>\<open>EventHandler.h\<close>, which is not
  among the sources. The routine uses its members \<^verbatim>\<open>EventType\<close> and
  \<^verbatim>\<open>EventData.ByteArray\<close>; the data model of the specification gives an event as a kind
  and a payload byte array of the larger of the two payload sizes.
\<close>

record BluetoothEvent =
  EventType :: uint8_t
  ByteArray :: "uint8_t list"

text \<open>
  The globals the receive interrupt works on. \<open>tRemoteTouchEventPtr\<close> points to one of
  the two event variables; \<open>event_ptr\<close> names them.
\<close>

record receiver =
  sReceiveBuffer :: "uint8_t list"
  sReceiveBufferIndex :: uint8_t
  sReceiveBufferOutOfSync :: bool
  sReceivedEventType :: uint8_t
  remoteTouchEvent :: BluetoothEvent
  remoteTouchDownEvent :: BluetoothEvent
  allowTouchInterrupts :: bool

datatype event_ptr = RemoteTouchEvent | RemoteTouchDownEvent

fun deref :: "event_ptr \<Rightarrow> receiver \<Rightarrow> BluetoothEvent" where
  "deref RemoteTouchEvent s = remoteTouchEvent s"
| "deref RemoteTouchDownEvent s = remoteTouchDownEvent s"

fun assign :: "event_ptr \<Rightarrow> BluetoothEvent \<Rightarrow> receiver \<Rightarrow> receiver" where
  "assign RemoteTouchEvent e s = s\<lparr>remoteTouchEvent := e\<rparr>"
| "assign RemoteTouchDownEvent e s = s\<lparr>remoteTouchDownEvent := e\<rparr>"

text \<open>
  The arrays have the declared sizes: \<^verbatim>\<open>sReceiveBuffer[RECEIVE_CALLBACK_DATA_SIZE]\<close>, and
  the payload array of each of the two events.
\<close>

definition arrays_ok :: "constants \<Rightarrow> receiver \<Rightarrow> bool" where
  "arrays_ok c s \<longleftrightarrow>
     length (sReceiveBuffer s) = RECEIVE_CALLBACK_DATA_SIZE c \<and>
     length (ByteArray (remoteTouchEvent s)) = RECEIVE_CALLBACK_DATA_SIZE c \<and>
     length (ByteArray (remoteTouchDownEvent s)) = RECEIVE_CALLBACK_DATA_SIZE c"

text \<open>
  The state after the static initialisers and \<^verbatim>\<open>initSimpleSerial\<close>: zeroed arrays, index
  0, in sync, no event type received, both events empty, \<open>allowTouchInterrupts\<close> false.
  When \<open>DO_NOT_NEED_BASIC_TOUCH\<close> is defined the program has no touch-down event; the
  field is then never written.
\<close>

definition initial_receiver :: "constants \<Rightarrow> receiver" where
  "initial_receiver c =
     \<lparr>sReceiveBuffer = replicate (RECEIVE_CALLBACK_DATA_SIZE c) 0,
      sReceiveBufferIndex = 0,
      sReceiveBufferOutOfSync = False,
      sReceivedEventType = EVENT_TAG_NO_EVENT c,
      remoteTouchEvent = \<lparr>EventType = EVENT_TAG_NO_EVENT c,
        ByteArray = replicate (RECEIVE_CALLBACK_DATA_SIZE c) 0\<rparr>,
      remoteTouchDownEvent = \<lparr>EventType = EVENT_TAG_NO_EVENT c,
        ByteArray = replicate (RECEIVE_CALLBACK_DATA_SIZE c) 0\<rparr>,
      allowTouchInterrupts = False\<rparr>"

subsection \<open>The event handler\<close>

text \<open>
  Modelled from the spec: \<^verbatim>\<open>handleEvent\<close> of the event handler, which is not among the
  sources. Section 4.3 of the specification: it reads the event type of the slot; if
  that is \<open>NO_EVENT\<close> it does nothing; otherwise it hands the event to the registered
  handler and afterwards clears the slot by setting its event type to \<open>NO_EVENT\<close>. The
  handlers are application code and leave the receiver alone.
\<close>

definition handleEvent :: "constants \<Rightarrow> BluetoothEvent \<Rightarrow> BluetoothEvent" where
  "handleEvent c aEvent =
     (if EventType aEvent = EVENT_TAG_NO_EVENT c then aEvent
      else aEvent\<lparr>EventType := EVENT_TAG_NO_EVENT c\<rparr>)"

subsection \<open>The receive interrupt\<close>

text \<open>\<^verbatim>\<open>memcpy(dst, src, n)\<close> on byte arrays.\<close>

definition memcpy :: "uint8_t list \<Rightarrow> uint8_t list \<Rightarrow> nat \<Rightarrow> fault + uint8_t list" where
  "memcpy dst src n =
     (if n \<le> length src \<and> n \<le> length dst then Inr (take n src @ drop n dst)
      else Inl MemcpyOutOfBounds)"

text \<open>\<^verbatim>\<open>sReceiveBuffer[sReceiveBufferIndex++] = tByte\<close>\<close>

definition store_byte :: "uint8_t \<Rightarrow> receiver \<Rightarrow> fault + receiver" where
  "store_byte tByte s =
     (if unat (sReceiveBufferIndex s) < length (sReceiveBuffer s)
      then Inr (s\<lparr>sReceiveBuffer := (sReceiveBuffer s)[unat (sReceiveBufferIndex s) := tByte],
                  sReceiveBufferIndex := sReceiveBufferIndex s + 1\<rparr>)
      else Inl StoreOutsideReceiveBuffer)"

text \<open>The local \<open>tDataSize\<close> of the interrupt routine, a \<^verbatim>\<open>uint8_t\<close>.\<close>

definition tDataSize :: "constants \<Rightarrow> uint8_t \<Rightarrow> uint8_t" where
  "tDataSize c aReceivedEventType =
     (if aReceivedEventType < EVENT_TAG_FIRST_CALLBACK_ACTION_CODE c
      then of_nat RECEIVE_TOUCH_OR_DISPLAY_DATA_SIZE
      else of_nat (RECEIVE_CALLBACK_DATA_SIZE c))"

text \<open>The slot \<open>tRemoteTouchEventPtr\<close> ends up pointing to.\<close>

definition tRemoteTouchEventPtr :: "constants \<Rightarrow> uint8_t \<Rightarrow> event_ptr" where
  "tRemoteTouchEventPtr c aReceivedEventType =
     (if \<not> DO_NOT_NEED_BASIC_TOUCH c \<and> aReceivedEventType = EVENT_TAG_TOUCH_ACTION_DOWN c
      then RemoteTouchDownEvent else RemoteTouchEvent)"

text \<open>The branch "event complete received" of the routine.\<close>

definition event_complete :: "constants \<Rightarrow> receiver \<Rightarrow> fault + receiver" where
  "event_complete c s =
     (let p = tRemoteTouchEventPtr c (sReceivedEventType s) in
      case memcpy (ByteArray (deref p s)) (sReceiveBuffer s)
             (unat (tDataSize c (sReceivedEventType s))) of
        Inl e \<Rightarrow> Inl e
      | Inr bytes \<Rightarrow>
          let s1 = assign p \<lparr>EventType = sReceivedEventType s, ByteArray = bytes\<rparr> s;
              s2 = s1\<lparr>sReceiveBufferIndex := 0, sReceivedEventType := EVENT_TAG_NO_EVENT c\<rparr>
          in if allowTouchInterrupts s2
             then Inr (assign p (handleEvent c (deref p s2)) s2)
             else Inr s2)"

text \<open>\<^verbatim>\<open>ISR(USART_RX_vect)\<close>, with the byte read from \<^verbatim>\<open>UDR0\<close> as argument.\<close>

definition USART_RX_vect :: "constants \<Rightarrow> uint8_t \<Rightarrow> receiver \<Rightarrow> fault + receiver" where
  "USART_RX_vect c tByte s =
     (if sReceiveBufferOutOfSync s then
        (if tByte = SYNC_TOKEN c
         then Inr (s\<lparr>sReceiveBufferOutOfSync := False,
                     sReceivedEventType := EVENT_TAG_NO_EVENT c,
                     sReceiveBufferIndex := 0\<rparr>)
         else Inr s)
      else if sReceivedEventType s = EVENT_TAG_NO_EVENT c then
        (if sReceiveBufferIndex s = 1
         then Inr (s\<lparr>sReceivedEventType := tByte, sReceiveBufferIndex := 0\<rparr>)
         else store_byte tByte s)
      else if sReceiveBufferIndex s = tDataSize c (sReceivedEventType s) then
        (if tByte = SYNC_TOKEN c
         then event_complete c s
         else Inr (s\<lparr>sReceiveBufferOutOfSync := True, sReceiveBufferIndex := 0\<rparr>))
      else store_byte tByte s)"

text \<open>The routine run once for every byte of a stream, in order, up to the first fault.\<close>

fun receive_bytes :: "constants \<Rightarrow> uint8_t list \<Rightarrow> receiver \<Rightarrow> fault + receiver" where
  "receive_bytes c [] s = Inr s"
| "receive_bytes c (tByte # bs) s =
     (case USART_RX_vect c tByte s of Inl e \<Rightarrow> Inl e | Inr s' \<Rightarrow> receive_bytes c bs s')"

text \<open>
  The wire format of an incoming event: length byte, tag, payload, sync token. The
  payload of a frame has the size its tag implies, and the tag is an event type.
\<close>

definition event_frame :: "constants \<Rightarrow> uint8_t \<Rightarrow> uint8_t \<Rightarrow> uint8_t list \<Rightarrow> uint8_t list" where
  "event_frame c len T P = len # T # P @ [SYNC_TOKEN c]"

definition payload_ok :: "constants \<Rightarrow> uint8_t \<Rightarrow> uint8_t list \<Rightarrow> bool" where
  "payload_ok c T P \<longleftrightarrow>
     T \<noteq> EVENT_TAG_NO_EVENT c \<and>
     length P = (if T < EVENT_TAG_FIRST_CALLBACK_ACTION_CODE c
                 then RECEIVE_TOUCH_OR_DISPLAY_DATA_SIZE else RECEIVE_CALLBACK_DATA_SIZE c)"

text \<open>The reset state of the receiver: in sync, no event type, index 0.\<close>

definition receiver_reset :: "constants \<Rightarrow> receiver \<Rightarrow> bool" where
  "receiver_reset c s \<longleftrightarrow>
     \<not> sReceiveBufferOutOfSync s \<and> sReceivedEventType s = EVENT_TAG_NO_EVENT c \<and>
     sReceiveBufferIndex s = 0"

subsection \<open>Sending\<close>

text \<open>
  The bytes of a \<^verbatim>\<open>uint16_t\<close> as \<^verbatim>\<open>(uint8_t*) &tParamBuffer[0]\<close> sees them on the AVR:
  low byte first.
\<close>

definition bytes_of_uint16 :: "uint16_t \<Rightarrow> uint8_t list" where
  "bytes_of_uint16 w = [ucast w, ucast (drop_bit 8 w)]"

definition bytes_of_words :: "uint16_t list \<Rightarrow> uint8_t list" where
  "bytes_of_words ws = concat (map bytes_of_uint16 ws)"

text \<open>
  The first loop of \<^verbatim>\<open>sendUSARTBufferNoSizeCheck\<close>. \<open>mem\<close> holds the bytes from
  \<open>aParameterBufferPointer\<close> to the end of what the caller wrote to its parameter
  buffer, \<open>tx\<close> the bytes written to \<^verbatim>\<open>UDR0\<close> so far. The inner loop waits for the
  transmitter to signal an empty data register, which the hardware does after each
  byte; it changes nothing.
\<close>

fun send_parameter_bytes :: "uint8_t list \<Rightarrow> int \<Rightarrow> uint8_t list \<Rightarrow> fault + uint8_t list" where
  "send_parameter_bytes [] aParameterBufferLength tx =
     (if aParameterBufferLength > 0 then Inl ReadOutsideParamBuffer else Inr tx)"
| "send_parameter_bytes (b # mem) aParameterBufferLength tx =
     (if aParameterBufferLength > 0
      then send_parameter_bytes mem (aParameterBufferLength - 1) (tx @ [b])
      else Inr tx)"

text \<open>
  The second loop. The data buffer is caller memory named by a 16-bit address: \<open>ram\<close>
  is the data space, \<open>aDataBufferPointer\<close> the address.
\<close>

function send_data_bytes :: "(uint16_t \<Rightarrow> uint8_t) \<Rightarrow> uint16_t \<Rightarrow> int \<Rightarrow> uint8_t list \<Rightarrow> uint8_t list" where
  "send_data_bytes ram aDataBufferPointer aDataBufferLength tx =
     (if aDataBufferLength > 0
      then send_data_bytes ram (aDataBufferPointer + 1) (aDataBufferLength - 1)
             (tx @ [ram aDataBufferPointer])
      else tx)"
  by pat_completeness auto
termination
  by (relation "measure (\<lambda>(ram, p, n, tx). nat n)") auto

declare send_data_bytes.simps [simp del]

text \<open>
  \<^verbatim>\<open>sendUSARTBufferNoSizeCheck\<close>: the result is the sequence of bytes written to
  \<^verbatim>\<open>UDR0\<close>. The lengths are the values of an \<^verbatim>\<open>int\<close> and an \<^verbatim>\<open>int16_t\<close>; both loops
  only count them down to 0.
\<close>

definition sendUSARTBufferNoSizeCheck ::
  "uint8_t list \<Rightarrow> int \<Rightarrow> (uint16_t \<Rightarrow> uint8_t) \<Rightarrow> uint16_t \<Rightarrow> int \<Rightarrow> fault + uint8_t list" where
  "sendUSARTBufferNoSizeCheck mem aParameterBufferLength ram aDataBufferPointer aDataBufferLength =
     (case send_parameter_bytes mem aParameterBufferLength [] of
        Inl e \<Rightarrow> Inl e
      | Inr tx \<Rightarrow> Inr (send_data_bytes ram aDataBufferPointer aDataBufferLength tx))"

text \<open>
  The loop \<^verbatim>\<open>for (uint8_t i = 0; i < aNumberOfArgs; ++i) *tBufferPointer++ = va_arg(argp, int)\<close>.
  \<open>argp\<close> is the list of variadic arguments not yet read, \<open>buf\<close> the words written to
  \<^verbatim>\<open>tParamBuffer\<close> so far, \<open>cap\<close> the number of words the array has. \<open>i\<close> is promoted
  to \<^verbatim>\<open>int\<close> for the comparison.
\<close>

fun copy_args ::
  "nat \<Rightarrow> uint8_t \<Rightarrow> int_avr \<Rightarrow> uint16_t list \<Rightarrow> uint16_t list \<Rightarrow> fault + (uint16_t list \<times> uint16_t list)" where
  "copy_args cap i aNumberOfArgs [] buf =
     (if ucast i <s aNumberOfArgs then Inl VaArgMissing else Inr (buf, []))"
| "copy_args cap i aNumberOfArgs (a # argp) buf =
     (if ucast i <s aNumberOfArgs
      then (if length buf < cap then copy_args cap (i + 1) aNumberOfArgs argp (buf @ [a])
            else Inl StoreOutsideParamBuffer)
      else Inr (buf, a # argp))"

text \<open>\<^verbatim>\<open>aFunctionTag << 8 | SYNC_TOKEN\<close>, stored into a \<^verbatim>\<open>uint16_t\<close>.\<close>

definition header_word :: "constants \<Rightarrow> uint8_t \<Rightarrow> uint16_t" where
  "header_word c aFunctionTag = push_bit 8 (ucast aFunctionTag) OR ucast (SYNC_TOKEN c)"

text \<open>
  \<^verbatim>\<open>sendUSARTArgs(aFunctionTag, aNumberOfArgs, ...)\<close> with the variadic arguments as the
  list \<open>argp\<close>. The result is the sequence of bytes written to \<^verbatim>\<open>UDR0\<close>; the early
  return writes none.
\<close>

definition sendUSARTArgs ::
  "constants \<Rightarrow> (uint16_t \<Rightarrow> uint8_t) \<Rightarrow> uint8_t \<Rightarrow> int_avr \<Rightarrow> uint16_t list \<Rightarrow> fault + uint8_t list" where
  "sendUSARTArgs c ram aFunctionTag aNumberOfArgs argp =
     (if of_nat MAX_NUMBER_OF_ARGS <s aNumberOfArgs then Inr []
      else
        case copy_args (MAX_NUMBER_OF_ARGS + 2) 0 aNumberOfArgs argp
               [header_word c aFunctionTag, aNumberOfArgs * 2] of
          Inl e \<Rightarrow> Inl e
        | Inr (tParamBuffer, argp') \<Rightarrow>
            sendUSARTBufferNoSizeCheck (bytes_of_words tParamBuffer)
              (sint (aNumberOfArgs * 2 + 4)) ram 0 0)"

text \<open>
  \<^verbatim>\<open>sendUSARTArgsAndByteBuffer\<close>: after the arguments the list \<open>argp\<close> holds the length
  and the address of the byte buffer. \<open>tLength\<close> is a \<^verbatim>\<open>uint16_t\<close> and becomes the
  \<^verbatim>\<open>int16_t aDataBufferLength\<close> of the callee.
\<close>

definition sendUSARTArgsAndByteBuffer ::
  "constants \<Rightarrow> (uint16_t \<Rightarrow> uint8_t) \<Rightarrow> uint8_t \<Rightarrow> int_avr \<Rightarrow> uint16_t list \<Rightarrow> fault + uint8_t list" where
  "sendUSARTArgsAndByteBuffer c ram aFunctionTag aNumberOfArgs argp =
     (if of_nat MAX_NUMBER_OF_ARGS <s aNumberOfArgs then Inr []
      else
        case copy_args (MAX_NUMBER_OF_ARGS + 4) 0 aNumberOfArgs argp
               [header_word c aFunctionTag, aNumberOfArgs * 2] of
          Inl e \<Rightarrow> Inl e
        | Inr (buf, argp1) \<Rightarrow>
            (case argp1 of
               [] \<Rightarrow> Inl VaArgMissing
             | tLength # argp2 \<Rightarrow>
                 (case argp2 of
                    [] \<Rightarrow> Inl VaArgMissing
                  | aBufferPtr # argp3 \<Rightarrow>
                      sendUSARTBufferNoSizeCheck
                        (bytes_of_words
                           (buf @ [push_bit 8 DATAFIELD_TAG_BYTE OR ucast (SYNC_TOKEN c), tLength]))
                        (sint (aNumberOfArgs * 2 + 8)) ram aBufferPtr (sint tLength))))"

text \<open>The bytes at \<open>n\<close> consecutive addresses from \<open>p\<close> on.\<close>

definition ram_bytes :: "(uint16_t \<Rightarrow> uint8_t) \<Rightarrow> uint16_t \<Rightarrow> nat \<Rightarrow> uint8_t list" where
  "ram_bytes ram p n = map (\<lambda>k. ram (p + of_nat k)) [0..<n]"

subsection \<open>Streams of event frames and the invariant of the receiver\<close>

text \<open>Several frames in a row, each given by its length byte, its tag and its payload.\<close>

definition event_frames :: "constants \<Rightarrow> (uint8_t \<times> uint8_t \<times> uint8_t list) list \<Rightarrow> uint8_t list" where
  "event_frames c fs = concat (map (\<lambda>(len, T, P). event_frame c len T P) fs)"

definition frames_ok :: "constants \<Rightarrow> (uint8_t \<times> uint8_t \<times> uint8_t list) list \<Rightarrow> bool" where
  "frames_ok c fs = list_all (\<lambda>(len, T, P). payload_ok c T P) fs"

text \<open>
  What the interrupt routine keeps true of its globals: the arrays have their declared
  sizes; while no event type is known the index is 0 or 1 (the length byte is the only
  byte stored); while an event type is known the index is at most the data size of that
  type.
\<close>

definition receiver_ok :: "constants \<Rightarrow> receiver \<Rightarrow> bool" where
  "receiver_ok c s \<longleftrightarrow>
     arrays_ok c s \<and>
     (sReceivedEventType s = EVENT_TAG_NO_EVENT c \<longrightarrow> unat (sReceiveBufferIndex s) \<le> 1) \<and>
     (sReceivedEventType s \<noteq> EVENT_TAG_NO_EVENT c \<longrightarrow>
        unat (sReceiveBufferIndex s) \<le> unat (tDataSize c (sReceivedEventType s)))"

text \<open>A data space for concrete runs: every address holds its own low byte.\<close>

definition example_ram :: "uint16_t \<Rightarrow> uint8_t" where
  "example_ram a = ucast a"

section \<open>Properties of the sending side\<close>

subsection \<open>The transmit loops\<close>

lemma nat_pred: "(0::int) < n \<Longrightarrow> nat n = Suc (nat (n - 1))"
  by linarith

lemma send_parameter_bytes_take:
  "n \<le> int (length mem) \<Longrightarrow> send_parameter_bytes mem n tx = Inr (tx @ take (nat n) mem)"
proof (induction mem n tx rule: send_parameter_bytes.induct)
  case (1 n tx)
  then show ?case by simp
next
  case (2 b mem n tx)
  show ?case
  proof (cases "n > 0")
    case True
    with 2 show ?thesis by (simp add: nat_pred [OF True])
  next
    case False
    then show ?thesis by simp
  qed
qed

lemma ram_bytes_Suc: "ram_bytes ram p (Suc m) = ram p # ram_bytes ram (p + 1) m"
proof -
  have "map (\<lambda>k. ram (p + of_nat k)) [0..<Suc m] =
          ram p # map (\<lambda>k. ram (p + of_nat k)) (map Suc [0..<m])"
    by (simp only: upt_conv_Cons [of 0 "Suc m"] map_Suc_upt list.map) simp
  also have "map (\<lambda>k. ram (p + of_nat k)) (map Suc [0..<m]) =
          map (\<lambda>k. ram (p + 1 + of_nat k)) [0..<m]"
    by (simp add: add.assoc)
  finally show ?thesis by (simp add: ram_bytes_def)
qed

lemma length_ram_bytes: "length (ram_bytes ram p n) = n"
  by (simp add: ram_bytes_def)

lemma send_data_bytes_eq:
  "send_data_bytes ram p n tx = tx @ ram_bytes ram p (nat n)"
proof (induction ram p n tx rule: send_data_bytes.induct)
  case (1 ram p n tx)
  show ?case
  proof (cases "n > 0")
    case True
    with 1 show ?thesis
      by (subst send_data_bytes.simps) (simp add: nat_pred [OF True] ram_bytes_Suc)
  next
    case False
    then show ?thesis
      by (subst send_data_bytes.simps) (simp add: ram_bytes_def)
  qed
qed

lemma send_no_data:
  "n \<le> int (length mem) \<Longrightarrow>
   sendUSARTBufferNoSizeCheck mem n ram p 0 = Inr (take (nat n) mem)"
  by (simp add: sendUSARTBufferNoSizeCheck_def send_parameter_bytes_take send_data_bytes_eq
      ram_bytes_def)

lemma send_with_data:
  "n = int (length mem) \<Longrightarrow>
   sendUSARTBufferNoSizeCheck mem n ram p d = Inr (mem @ ram_bytes ram p (nat d))"
  by (simp add: sendUSARTBufferNoSizeCheck_def send_parameter_bytes_take send_data_bytes_eq)

subsection \<open>16-bit arithmetic of the argument count\<close>

lemma sint_ucast_8_16: "sint (ucast (i :: 8 word) :: 16 word) = int (unat i)"
proof -
  have "uint i < 2 ^ 8" using uint_lt2p [of i] by simp
  moreover have "- 32768 \<le> uint i"
  proof -
    have "0 \<le> uint i" by simp
    then show ?thesis by linarith
  qed
  ultimately have "signed_take_bit 15 (uint i) = uint i"
    by (intro signed_take_bit_int_eq_self) simp_all
  then show ?thesis
    by (simp add: signed_ucast_eq)
qed

lemma loop_test: "(ucast (i :: 8 word) <s (n :: 16 word)) \<longleftrightarrow> int (unat i) < sint n"
  by (simp add: word_sless_alt sint_ucast_8_16)

lemma sint_times2_plus:
  assumes "- 32768 \<le> 2 * sint (n :: 16 word) + k" and "2 * sint n + k < 32768"
  shows "sint (n * 2 + word_of_int k) = 2 * sint n + k"
proof -
  have "n * 2 + word_of_int k = word_of_int (2 * sint n + k)"
    by simp
  then have "sint (n * 2 + word_of_int k) = signed_take_bit 15 (2 * sint n + k)"
    by (simp only: sint_sbintrunc') simp
  with assms show ?thesis by (simp add: signed_take_bit_int_eq_self)
qed

lemma word_two_times:
  assumes "0 \<le> sint (n :: 16 word)" and "sint n \<le> 12"
  shows "unat (n * 2) = 2 * nat (sint n)"
proof -
  have "n * 2 = word_of_int (2 * sint n)" by simp
  then have "uint (n * 2) = (2 * sint n) mod 2 ^ 16"
    by (simp only: uint_word_of_int) simp
  also have "\<dots> = 2 * sint n" using assms by simp
  finally have "int (unat (n * 2)) = 2 * sint n" by simp
  with assms show ?thesis by linarith
qed

lemma nat_sint_unat:
  assumes "0 \<le> sint (w :: 16 word)"
  shows "nat (sint w) = unat w"
proof -
  have "sint w < 2 ^ 15" using sint_lt [of w] by simp
  moreover have "uint (word_of_int (sint w) :: 16 word) = sint w mod 2 ^ 16"
    by (simp only: uint_word_of_int) simp
  ultimately have "int (unat w) = sint w" using assms by simp
  then show ?thesis by linarith
qed

subsection \<open>Filling the parameter buffer\<close>

lemma copy_args_done:
  "\<not> int (unat i) < sint n \<Longrightarrow> copy_args cap i n argp buf = Inr (buf, argp)"
  by (cases argp) (simp_all add: loop_test)

lemma copy_args_exact:
  "int (unat i) + int (length args) = sint n \<Longrightarrow> unat i + length args \<le> 255 \<Longrightarrow>
   length buf + length args \<le> cap \<Longrightarrow>
   copy_args cap i n (args @ rest) buf = Inr (buf @ args, rest)"
proof (induction args arbitrary: i buf)
  case Nil
  then show ?case by (simp add: copy_args_done)
next
  case (Cons a args)
  from Cons.prems have lt: "int (unat i) < sint n" and i: "unat i < 255" by simp_all
  from i have suc: "unat (i + 1) = unat i + 1"
    using unat_add_lem [of i 1] by simp
  have "copy_args cap (i + 1) n (args @ rest) (buf @ [a]) = Inr ((buf @ [a]) @ args, rest)"
    using Cons.prems by (intro Cons.IH) (simp_all add: suc)
  with lt Cons.prems show ?case by (simp add: loop_test)
qed

lemma length_bytes_of_words: "length (bytes_of_words ws) = 2 * length ws"
  by (induction ws) (simp_all add: bytes_of_words_def bytes_of_uint16_def)

lemma low_byte:
  "(ucast (push_bit 8 (ucast (t :: 8 word)) OR ucast (y :: 8 word) :: 16 word) :: 8 word) = y"
  by (rule bit_word_eqI) (auto simp add: bit_simps dest: bit_imp_le_length)

lemma high_byte:
  "(ucast (drop_bit 8 (push_bit 8 (ucast (t :: 8 word)) OR ucast (y :: 8 word) :: 16 word)) :: 8 word) = t"
  by (rule bit_word_eqI) (auto simp add: bit_simps dest: bit_imp_le_length)

lemma bytes_of_header: "bytes_of_uint16 (header_word c tag) = [SYNC_TOKEN c, tag]"
  unfolding bytes_of_uint16_def header_word_def
  by (simp only: low_byte high_byte)

subsection \<open>The argument cap\<close>

text \<open>
  Claim C2. A call of \<^verbatim>\<open>sendUSARTArgs\<close> or of \<^verbatim>\<open>sendUSARTArgsAndByteBuffer\<close> with an argument
  count greater than 12 returns before anything is written to the transmitter: the
  sequence of transmitted bytes is empty, whatever arguments follow.
\<close>

theorem argument_cap:
  assumes "12 < sint aNumberOfArgs"
  shows "sendUSARTArgs c ram aFunctionTag aNumberOfArgs argp = Inr [] \<and>
         sendUSARTArgsAndByteBuffer c ram aFunctionTag aNumberOfArgs argp = Inr []"
  using assms
  by (simp add: sendUSARTArgs_def sendUSARTArgsAndByteBuffer_def MAX_NUMBER_OF_ARGS_def
      word_sless_alt)

theorem argument_cap_witness:
  "12 < sint (13 :: int_avr) \<and>
   sendUSARTArgs avr_constants example_ram 0x40 13 [1, 2, 3, 4, 5, 6, 7, 8, 9, 10, 11, 12, 13]
     = Inr [] \<and>
   sendUSARTArgsAndByteBuffer avr_constants example_ram 0x40 13
     [1, 2, 3, 4, 5, 6, 7, 8, 9, 10, 11, 12, 13] = Inr []"
proof -
  have h: "12 < sint (13 :: int_avr)" by simp
  show ?thesis
    using h argument_cap [OF h, of avr_constants example_ram "0x40"
        "[1, 2, 3, 4, 5, 6, 7, 8, 9, 10, 11, 12, 13]"]
    by simp
qed

subsection \<open>The layout of a command frame\<close>

text \<open>
  Claim C7. For an argument count N from 0 to 12 and N variadic arguments,
  \<^verbatim>\<open>sendUSARTArgs\<close> transmits exactly the bytes of the header word \<open>tag << 8 | SYNC_TOKEN\<close>,
  of the length word \<open>2 * N\<close> and of the N arguments as they were passed, each word low
  byte first as the AVR stores it, and nothing after them: \<open>2 * N + 4\<close> bytes. The two
  bytes of the header word are the sync token followed by the tag.
\<close>

theorem command_frame_layout:
  assumes "0 \<le> sint aNumberOfArgs" and "sint aNumberOfArgs \<le> 12"
    and "int (length args) = sint aNumberOfArgs"
  shows "sendUSARTArgs c ram aFunctionTag aNumberOfArgs (args @ rest) =
           Inr (bytes_of_words
                  ([push_bit 8 (ucast aFunctionTag) OR ucast (SYNC_TOKEN c), aNumberOfArgs * 2] @ args)) \<and>
         length (bytes_of_words
                  ([push_bit 8 (ucast aFunctionTag) OR ucast (SYNC_TOKEN c), aNumberOfArgs * 2] @ args))
           = 2 * length args + 4 \<and>
         unat (aNumberOfArgs * 2) = 2 * length args \<and>
         bytes_of_uint16 (push_bit 8 (ucast aFunctionTag) OR ucast (SYNC_TOKEN c)) =
           [SYNC_TOKEN c, aFunctionTag]"
proof -
  let ?hdr = "push_bit 8 (ucast aFunctionTag) OR ucast (SYNC_TOKEN c) :: 16 word"
  let ?buf = "[?hdr, aNumberOfArgs * 2] @ args"
  have guard: "\<not> of_nat MAX_NUMBER_OF_ARGS <s aNumberOfArgs"
    using assms(2) by (simp add: MAX_NUMBER_OF_ARGS_def word_sless_alt)
  have copy: "copy_args (MAX_NUMBER_OF_ARGS + 2) 0 aNumberOfArgs (args @ rest)
                [header_word c aFunctionTag, aNumberOfArgs * 2] = Inr (?buf, rest)"
    using assms by (subst copy_args_exact) (simp_all add: MAX_NUMBER_OF_ARGS_def header_word_def)
  have len: "sint (aNumberOfArgs * 2 + 4) = int (length (bytes_of_words ?buf))"
    using assms sint_times2_plus [of aNumberOfArgs 4] by (simp add: length_bytes_of_words)
  have "sendUSARTArgs c ram aFunctionTag aNumberOfArgs (args @ rest) = Inr (bytes_of_words ?buf)"
    unfolding sendUSARTArgs_def using guard
    by (simp only: if_False copy sum.case prod.case len send_with_data [OF refl])
      (simp add: ram_bytes_def)
  moreover have "unat (aNumberOfArgs * 2) = 2 * length args"
    using word_two_times [OF assms(1,2)] assms(3) by simp
  ultimately show ?thesis
    using bytes_of_header [of c aFunctionTag]
    by (simp add: length_bytes_of_words header_word_def)
qed

theorem command_frame_layout_witness:
  "0 \<le> sint (2 :: int_avr) \<and> sint (2 :: int_avr) \<le> 12 \<and>
   int (length [0x1234, 0xABCD :: uint16_t]) = sint (2 :: int_avr) \<and>
   sendUSARTArgs avr_constants example_ram 0x40 2 [0x1234, 0xABCD] =
     Inr [0xA5, 0x40, 0x04, 0x00, 0x34, 0x12, 0xCD, 0xAB]"
proof -
  have h1: "0 \<le> sint (2 :: int_avr)" and h2: "sint (2 :: int_avr) \<le> 12"
    and h3: "int (length [0x1234, 0xABCD :: uint16_t]) = sint (2 :: int_avr)"
    by simp_all
  show ?thesis
    using h1 h2 h3
      command_frame_layout [OF h1 h2 h3, of avr_constants example_ram "0x40" "[]"]
    by (simp add: bytes_of_words_def bytes_of_uint16_def avr_constants_def)
qed

subsection \<open>The layout of a command frame with a data block\<close>

text \<open>
  Claim C8, as stated, at a data length of 32768: the header of the data block announces
  32768 bytes, and no data byte follows it. \<open>tLength\<close> becomes the \<^verbatim>\<open>int16_t\<close> parameter
  \<open>aDataBufferLength\<close>, which is then negative, and the data loop does not run.
\<close>

theorem data_block_layout_counterexample:
  "sendUSARTArgsAndByteBuffer avr_constants example_ram 0x40 0 [0x8000, 0x0100] =
     Inr [0xA5, 0x40, 0, 0, 0xA5, 0x01, 0x00, 0x80] \<and>
   unat (0x8000 :: uint16_t) = 32768 \<and>
   sendUSARTArgsAndByteBuffer avr_constants example_ram 0x40 0 [0x8000, 0x0100] \<noteq>
     Inr ([0xA5, 0x40, 0, 0, 0xA5, 0x01, 0x00, 0x80] @ ram_bytes example_ram 0x0100 32768)"
proof -
  have a: "sendUSARTArgsAndByteBuffer avr_constants example_ram 0x40 0 [0x8000, 0x0100] =
     Inr [0xA5, 0x40, 0, 0, 0xA5, 0x01, 0x00, 0x80]"
    by (simp add: sendUSARTArgsAndByteBuffer_def MAX_NUMBER_OF_ARGS_def word_sless_alt
        header_word_def avr_constants_def DATAFIELD_TAG_BYTE_def bytes_of_words_def
        bytes_of_uint16_def sendUSARTBufferNoSizeCheck_def send_data_bytes_eq ram_bytes_def)
  have "length (ram_bytes example_ram 0x0100 32768) \<noteq> 0"
    by (simp add: length_ram_bytes)
  then have "ram_bytes example_ram 0x0100 32768 \<noteq> []" by simp
  with a show ?thesis by simp
qed

text \<open>
  Claim C8, amended. For an argument count N from 0 to 12, N variadic arguments, and
  a data length of at most 32767 (not negative as an \<^verbatim>\<open>int16_t\<close>),
  \<^verbatim>\<open>sendUSARTArgsAndByteBuffer\<close> transmits the header word, the length word \<open>2 * N\<close> and
  the N arguments as \<^verbatim>\<open>sendUSARTArgs\<close> does, then the word
  \<open>DATAFIELD_TAG_BYTE << 8 | SYNC_TOKEN\<close> and the data length as a word, then the bytes
  found at the buffer address: \<open>2 * N + 8\<close> parameter bytes and as many data bytes as
  the length says.
\<close>

theorem data_block_layout:
  assumes "0 \<le> sint aNumberOfArgs" and "sint aNumberOfArgs \<le> 12"
    and "int (length args) = sint aNumberOfArgs"
    and "0 \<le> sint tLength"
  shows "sendUSARTArgsAndByteBuffer c ram aFunctionTag aNumberOfArgs
           (args @ tLength # aBufferPtr # rest) =
           Inr (bytes_of_words
                  ([push_bit 8 (ucast aFunctionTag) OR ucast (SYNC_TOKEN c), aNumberOfArgs * 2] @ args @
                   [push_bit 8 DATAFIELD_TAG_BYTE OR ucast (SYNC_TOKEN c), tLength])
                @ ram_bytes ram aBufferPtr (unat tLength)) \<and>
         length (bytes_of_words
                  ([push_bit 8 (ucast aFunctionTag) OR ucast (SYNC_TOKEN c), aNumberOfArgs * 2] @ args @
                   [push_bit 8 DATAFIELD_TAG_BYTE OR ucast (SYNC_TOKEN c), tLength])
                @ ram_bytes ram aBufferPtr (unat tLength))
           = 2 * length args + 8 + unat tLength \<and>
         unat (aNumberOfArgs * 2) = 2 * length args"
proof -
  let ?hdr = "push_bit 8 (ucast aFunctionTag) OR ucast (SYNC_TOKEN c) :: 16 word"
  let ?dat = "push_bit 8 DATAFIELD_TAG_BYTE OR ucast (SYNC_TOKEN c) :: 16 word"
  let ?buf = "[?hdr, aNumberOfArgs * 2] @ args"
  have guard: "\<not> of_nat MAX_NUMBER_OF_ARGS <s aNumberOfArgs"
    using assms(2) by (simp add: MAX_NUMBER_OF_ARGS_def word_sless_alt)
  have copy: "copy_args (MAX_NUMBER_OF_ARGS + 4) 0 aNumberOfArgs (args @ tLength # aBufferPtr # rest)
                [header_word c aFunctionTag, aNumberOfArgs * 2] = Inr (?buf, tLength # aBufferPtr # rest)"
    using assms by (subst copy_args_exact) (simp_all add: MAX_NUMBER_OF_ARGS_def header_word_def)
  have len: "sint (aNumberOfArgs * 2 + 8) = int (length (bytes_of_words (?buf @ [?dat, tLength])))"
    using assms sint_times2_plus [of aNumberOfArgs 8] by (simp add: length_bytes_of_words)
  have "sendUSARTArgsAndByteBuffer c ram aFunctionTag aNumberOfArgs (args @ tLength # aBufferPtr # rest)
          = Inr (bytes_of_words (?buf @ [?dat, tLength]) @ ram_bytes ram aBufferPtr (nat (sint tLength)))"
    unfolding sendUSARTArgsAndByteBuffer_def using guard
    by (simp only: if_False copy sum.case prod.case list.case len send_with_data [OF refl])
  moreover have "unat (aNumberOfArgs * 2) = 2 * length args"
    using word_two_times [OF assms(1,2)] assms(3) by simp
  ultimately show ?thesis
    by (simp add: length_bytes_of_words length_ram_bytes nat_sint_unat [OF assms(4)])
qed

theorem data_block_layout_witness:
  "0 \<le> sint (1 :: int_avr) \<and> sint (1 :: int_avr) \<le> 12 \<and>
   int (length [0x1234 :: uint16_t]) = sint (1 :: int_avr) \<and> 0 \<le> sint (3 :: uint16_t) \<and>
   sendUSARTArgsAndByteBuffer avr_constants example_ram 0x40 1 [0x1234, 3, 0x0100] =
     Inr [0xA5, 0x40, 0x02, 0x00, 0x34, 0x12, 0xA5, 0x01, 0x03, 0x00, 0x00, 0x01, 0x02]"
proof -
  have h1: "0 \<le> sint (1 :: int_avr)" and h2: "sint (1 :: int_avr) \<le> 12"
    and h3: "int (length [0x1234 :: uint16_t]) = sint (1 :: int_avr)"
    and h4: "0 \<le> sint (3 :: uint16_t)"
    by simp_all
  have r: "ram_bytes example_ram 0x0100 3 = [0x00, 0x01, 0x02]"
    by (simp add: ram_bytes_def example_ram_def upt_rec [of _ 3] upt_rec [of _ "Suc _"]) 
  show ?thesis
    using h1 h2 h3 h4
      data_block_layout [OF h1 h2 h3 h4, of avr_constants example_ram "0x40" "0x0100" "[]"]
    by (simp add: bytes_of_words_def bytes_of_uint16_def avr_constants_def
        DATAFIELD_TAG_BYTE_def r)
qed

subsection \<open>Negative argument counts\<close>

text \<open>
  Claim C10, as stated, at the count -32768: it is at most -2, the send length
  \<open>aNumberOfArgs * 2 + 4\<close> wraps around to 4 in 16 bits, and the header word and the
  length word are transmitted.
\<close>

theorem negative_argument_count_counterexample:
  "sint (- 32768 :: int_avr) \<le> - 2 \<and>
   sendUSARTArgs avr_constants example_ram 0x40 (- 32768) [] = Inr [0xA5, 0x40, 0, 0]"
  by (simp add: sendUSARTArgs_def MAX_NUMBER_OF_ARGS_def word_sless_alt
        header_word_def avr_constants_def bytes_of_words_def
        bytes_of_uint16_def sendUSARTBufferNoSizeCheck_def send_data_bytes_eq ram_bytes_def)

text \<open>
  Claim C10, amended. The guard of \<^verbatim>\<open>sendUSARTArgs\<close> lets negative counts pass. With the
  count -1 exactly the two bytes of the header word are transmitted, the sync token and
  the tag. With a count from -16386 to -2 nothing is transmitted: the send length
  \<open>2 * aNumberOfArgs + 4\<close> is computed without wrap-around and is not positive.
\<close>

theorem negative_argument_count:
  "\<not> 12 < sint (- 1 :: int_avr) \<and>
   sendUSARTArgs c ram aFunctionTag (- 1) argp = Inr [SYNC_TOKEN c, aFunctionTag] \<and>
   (- 16386 \<le> sint aNumberOfArgs \<and> sint aNumberOfArgs \<le> - 2 \<longrightarrow>
      sendUSARTArgs c ram aFunctionTag aNumberOfArgs argp = Inr [])"
proof -
  have neg: "sendUSARTArgs c ram aFunctionTag n argp =
               sendUSARTBufferNoSizeCheck (bytes_of_words [header_word c aFunctionTag, n * 2])
                 (sint (n * 2 + 4)) ram 0 0" if "sint n < 0" for n
    using that
    by (simp add: sendUSARTArgs_def MAX_NUMBER_OF_ARGS_def word_sless_alt copy_args_done)
  have one: "sendUSARTArgs c ram aFunctionTag (- 1) argp = Inr [SYNC_TOKEN c, aFunctionTag]"
    using bytes_of_header [of c aFunctionTag]
    by (simp add: neg send_no_data length_bytes_of_words bytes_of_words_def)
  have two: "sendUSARTArgs c ram aFunctionTag aNumberOfArgs argp = Inr []"
    if "- 16386 \<le> sint aNumberOfArgs" and "sint aNumberOfArgs \<le> - 2"
  proof -
    have "sint (aNumberOfArgs * 2 + 4) = 2 * sint aNumberOfArgs + 4"
      using that sint_times2_plus [of aNumberOfArgs 4] by simp
    with that have "sint (aNumberOfArgs * 2 + 4) \<le> 0" by simp
    then show ?thesis
      using that by (simp add: neg send_no_data length_bytes_of_words)
  qed
  from one two show ?thesis by simp
qed

theorem negative_argument_count_witness:
  "- 16386 \<le> sint (- 2 :: int_avr) \<and> sint (- 2 :: int_avr) \<le> - 2 \<and>
   sendUSARTArgs avr_constants example_ram 0x40 (- 2) [7, 8] = Inr [] \<and>
   sendUSARTArgs avr_constants example_ram 0x40 (- 1) [7, 8] = Inr [0xA5, 0x40]"
  using negative_argument_count [of avr_constants example_ram "0x40" "[7, 8]" "- 2"]
  by (simp add: avr_constants_def)

section \<open>Properties of the receiving side\<close>

subsection \<open>Data sizes and single steps\<close>

lemma unat_of_nat_8: "n < 256 \<Longrightarrow> unat (of_nat n :: 8 word) = n"
  by (simp add: unat_of_nat)

lemma unat_tDataSize:
  "constants_ok c \<Longrightarrow>
   unat (tDataSize c T) =
     (if T < EVENT_TAG_FIRST_CALLBACK_ACTION_CODE c then RECEIVE_TOUCH_OR_DISPLAY_DATA_SIZE
      else RECEIVE_CALLBACK_DATA_SIZE c)"
  by (simp add: tDataSize_def constants_ok_def unat_of_nat_8 RECEIVE_TOUCH_OR_DISPLAY_DATA_SIZE_def)

lemma tDataSize_le:
  "constants_ok c \<Longrightarrow> unat (tDataSize c T) \<le> RECEIVE_CALLBACK_DATA_SIZE c"
  by (simp add: unat_tDataSize) (simp add: constants_ok_def)

lemma tDataSize_pos:
  "constants_ok c \<Longrightarrow> 0 < unat (tDataSize c T)"
  by (simp add: unat_tDataSize) (simp add: constants_ok_def RECEIVE_TOUCH_OR_DISPLAY_DATA_SIZE_def)

lemma unat_index_Suc: "unat (i :: 8 word) < n \<Longrightarrow> n \<le> 255 \<Longrightarrow> unat (i + 1) = Suc (unat i)"
  using unat_add_lem [of i 1] by simp

lemma collect_step:
  assumes "\<not> sReceiveBufferOutOfSync s" and "sReceivedEventType s \<noteq> EVENT_TAG_NO_EVENT c"
    and "unat (sReceiveBufferIndex s) < unat (tDataSize c (sReceivedEventType s))"
    and "unat (tDataSize c (sReceivedEventType s)) \<le> length (sReceiveBuffer s)"
  shows "USART_RX_vect c b s =
           Inr (s\<lparr>sReceiveBuffer := (sReceiveBuffer s)[unat (sReceiveBufferIndex s) := b],
                  sReceiveBufferIndex := sReceiveBufferIndex s + 1\<rparr>)"
proof -
  from assms(3) have "sReceiveBufferIndex s \<noteq> tDataSize c (sReceivedEventType s)" by auto
  with assms show ?thesis by (simp add: USART_RX_vect_def store_byte_def)
qed

lemma mismatch_step:
  assumes "\<not> sReceiveBufferOutOfSync s" and "sReceivedEventType s \<noteq> EVENT_TAG_NO_EVENT c"
    and "sReceiveBufferIndex s = tDataSize c (sReceivedEventType s)"
    and "tByte \<noteq> SYNC_TOKEN c"
  shows "USART_RX_vect c tByte s =
           Inr (s\<lparr>sReceiveBufferOutOfSync := True, sReceiveBufferIndex := 0\<rparr>)"
  using assms by (simp add: USART_RX_vect_def)

lemma out_of_sync_token:
  "sReceiveBufferOutOfSync s \<Longrightarrow>
   USART_RX_vect c (SYNC_TOKEN c) s =
     Inr (s\<lparr>sReceiveBufferOutOfSync := False, sReceivedEventType := EVENT_TAG_NO_EVENT c,
            sReceiveBufferIndex := 0\<rparr>)"
  by (simp add: USART_RX_vect_def)

lemma index_zero_or_one: "unat (i :: 8 word) \<le> 1 \<Longrightarrow> i \<noteq> 1 \<Longrightarrow> i = 0"
proof -
  assume a: "unat i \<le> 1" "i \<noteq> 1"
  have "unat i \<noteq> 1" using a(2) by (simp add: word_unat_eq_iff)
  with a(1) have "unat i = 0" by simp
  then show ?thesis by (simp add: word_unat_eq_iff)
qed

lemma index_below_size:
  "unat (i :: 8 word) \<le> unat (n :: 8 word) \<Longrightarrow> i \<noteq> n \<Longrightarrow> unat i < unat n"
  by (simp add: word_unat_eq_iff)

subsection \<open>Runs over several bytes\<close>

lemma receive_bytes_append:
  "receive_bytes c (xs @ ys) s =
     (case receive_bytes c xs s of Inl e \<Rightarrow> Inl e | Inr s' \<Rightarrow> receive_bytes c ys s')"
  by (induction xs arbitrary: s) (simp_all split: sum.splits)

lemma out_of_sync_junk:
  "sReceiveBufferOutOfSync s \<Longrightarrow> SYNC_TOKEN c \<notin> set junk \<Longrightarrow> receive_bytes c junk s = Inr s"
  by (induction junk) (auto simp add: USART_RX_vect_def)

lemma collect_payload:
  assumes "\<not> sReceiveBufferOutOfSync s" and "sReceivedEventType s \<noteq> EVENT_TAG_NO_EVENT c"
    and "unat (sReceiveBufferIndex s) + length P \<le> unat (tDataSize c (sReceivedEventType s))"
    and "unat (tDataSize c (sReceivedEventType s)) \<le> length (sReceiveBuffer s)"
  shows "receive_bytes c P s =
           Inr (s\<lparr>sReceiveBuffer :=
                    take (unat (sReceiveBufferIndex s)) (sReceiveBuffer s) @ P @
                    drop (unat (sReceiveBufferIndex s) + length P) (sReceiveBuffer s),
                  sReceiveBufferIndex := sReceiveBufferIndex s + of_nat (length P)\<rparr>)"
  using assms
proof (induction P arbitrary: s)
  case Nil
  then show ?case by simp
next
  case (Cons b P)
  let ?i = "unat (sReceiveBufferIndex s)"
  let ?s1 = "s\<lparr>sReceiveBuffer := (sReceiveBuffer s)[?i := b],
                  sReceiveBufferIndex := sReceiveBufferIndex s + 1\<rparr>"
  from Cons.prems have lt: "?i < unat (tDataSize c (sReceivedEventType s))" by simp
  have step: "USART_RX_vect c b s = Inr ?s1"
    using Cons.prems(1,2) lt Cons.prems(4) by (rule collect_step)
  have "unat (tDataSize c (sReceivedEventType s)) \<le> 255"
    using unsigned_less [of "tDataSize c (sReceivedEventType s)", where 'a = nat] by simp
  with lt have suc: "unat (sReceiveBufferIndex s + 1) = Suc ?i"
    by (rule unat_index_Suc)
  have ih: "receive_bytes c P ?s1 =
           Inr (?s1\<lparr>sReceiveBuffer :=
                    take (unat (sReceiveBufferIndex ?s1)) (sReceiveBuffer ?s1) @ P @
                    drop (unat (sReceiveBufferIndex ?s1) + length P) (sReceiveBuffer ?s1),
                  sReceiveBufferIndex := sReceiveBufferIndex ?s1 + of_nat (length P)\<rparr>)"
    using Cons.prems by (intro Cons.IH) (simp_all add: suc)
  have ilen: "?i < length (sReceiveBuffer s)" using lt Cons.prems(4) by simp
  have buf: "take (Suc ?i) ((sReceiveBuffer s)[?i := b]) = take ?i (sReceiveBuffer s) @ [b]"
    using ilen by (simp add: take_Suc_conv_app_nth)
  show ?case
    by (simp add: step ih suc buf add.assoc)
qed

lemma buffer_nonempty: "constants_ok c \<Longrightarrow> arrays_ok c s \<Longrightarrow> sReceiveBuffer s \<noteq> []"
  by (auto simp add: constants_ok_def arrays_ok_def RECEIVE_TOUCH_OR_DISPLAY_DATA_SIZE_def)

lemma first_byte:
  assumes "receiver_reset c s" and "sReceiveBuffer s \<noteq> []"
  shows "receive_bytes c [b1] s =
           Inr (s\<lparr>sReceiveBuffer := (sReceiveBuffer s)[0 := b1], sReceiveBufferIndex := 1\<rparr>)"
  using assms by (simp add: receiver_reset_def USART_RX_vect_def store_byte_def)

lemma header_bytes:
  assumes "receiver_reset c s" and "sReceiveBuffer s \<noteq> []"
  shows "receive_bytes c [b1, b2] s =
           Inr (s\<lparr>sReceiveBuffer := (sReceiveBuffer s)[0 := b1],
                  sReceiveBufferIndex := 0, sReceivedEventType := b2\<rparr>)"
  using assms by (simp add: receiver_reset_def USART_RX_vect_def store_byte_def)

lemma header_and_payload:
  assumes "constants_ok c" and "arrays_ok c s" and "receiver_reset c s"
    and "b2 \<noteq> EVENT_TAG_NO_EVENT c" and "length P \<le> unat (tDataSize c b2)"
  shows "receive_bytes c (b1 # b2 # P) s =
           Inr (s\<lparr>sReceiveBuffer := P @ drop (length P) ((sReceiveBuffer s)[0 := b1]),
                  sReceiveBufferIndex := of_nat (length P), sReceivedEventType := b2\<rparr>)"
proof -
  let ?s2 = "s\<lparr>sReceiveBuffer := (sReceiveBuffer s)[0 := b1],
                  sReceiveBufferIndex := 0, sReceivedEventType := b2\<rparr>"
  have le: "unat (tDataSize c b2) \<le> length (sReceiveBuffer s)"
    using assms(1,2) by (simp add: arrays_ok_def tDataSize_le)
  have hdr: "receive_bytes c [b1, b2] s = Inr ?s2"
    using assms(3) buffer_nonempty [OF assms(1,2)] by (rule header_bytes)
  have pay: "receive_bytes c P ?s2 =
           Inr (?s2\<lparr>sReceiveBuffer :=
                    take (unat (sReceiveBufferIndex ?s2)) (sReceiveBuffer ?s2) @ P @
                    drop (unat (sReceiveBufferIndex ?s2) + length P) (sReceiveBuffer ?s2),
                  sReceiveBufferIndex := sReceiveBufferIndex ?s2 + of_nat (length P)\<rparr>)"
    using assms(3,4,5) le by (intro collect_payload) (simp_all add: receiver_reset_def)
  have "receive_bytes c ([b1, b2] @ P) s = receive_bytes c P ?s2"
    by (simp only: receive_bytes_append hdr sum.case)
  then show ?thesis by (simp add: pay)
qed

lemma length_payload:
  "constants_ok c \<Longrightarrow> payload_ok c T P \<Longrightarrow> length P = unat (tDataSize c T)"
  by (simp add: payload_ok_def unat_tDataSize)

lemma of_nat_length_payload:
  "constants_ok c \<Longrightarrow> payload_ok c T P \<Longrightarrow> of_nat (length P) = tDataSize c T"
  by (simp add: length_payload)

lemma frame_collected:
  assumes "constants_ok c" and "arrays_ok c s" and "receiver_reset c s" and "payload_ok c T P"
  shows "receive_bytes c (len # T # P) s =
           Inr (s\<lparr>sReceiveBuffer := P @ drop (length P) (sReceiveBuffer s),
                  sReceiveBufferIndex := tDataSize c T, sReceivedEventType := T\<rparr>)"
proof -
  let ?s2 = "s\<lparr>sReceiveBuffer := (sReceiveBuffer s)[0 := len],
                  sReceiveBufferIndex := 0, sReceivedEventType := T\<rparr>"
  have n: "length P = unat (tDataSize c T)" using assms(1,4) by (rule length_payload)
  have le: "unat (tDataSize c T) \<le> length (sReceiveBuffer s)"
    using assms(1,2) by (simp add: arrays_ok_def tDataSize_le)
  have pos: "0 < length P" using assms(1) n by (simp add: tDataSize_pos)
  then have ne: "sReceiveBuffer s \<noteq> []" using le n by auto
  have hdr: "receive_bytes c [len, T] s = Inr ?s2"
    using assms(3) ne by (rule header_bytes)
  have pay: "receive_bytes c P ?s2 =
           Inr (?s2\<lparr>sReceiveBuffer :=
                    take (unat (sReceiveBufferIndex ?s2)) (sReceiveBuffer ?s2) @ P @
                    drop (unat (sReceiveBufferIndex ?s2) + length P) (sReceiveBuffer ?s2),
                  sReceiveBufferIndex := sReceiveBufferIndex ?s2 + of_nat (length P)\<rparr>)"
    using assms(3,4) n le by (intro collect_payload) (simp_all add: receiver_reset_def payload_ok_def)
  have "receive_bytes c ([len, T] @ P) s = receive_bytes c P ?s2"
    by (simp only: receive_bytes_append hdr sum.case)
  also have "\<dots> = Inr (s\<lparr>sReceiveBuffer := P @ drop (length P) (sReceiveBuffer s),
                  sReceiveBufferIndex := tDataSize c T, sReceivedEventType := T\<rparr>)"
    using pos by (simp add: pay n [symmetric] of_nat_length_payload [OF assms(1,4)] drop_update_cancel)
  finally show ?thesis by simp
qed

lemma frame_delivered:
  assumes "constants_ok c" and "arrays_ok c s" and "receiver_reset c s" and "payload_ok c T P"
  shows "receive_bytes c (event_frame c len T P) s =
           Inr (assign (tRemoteTouchEventPtr c T)
                  (if allowTouchInterrupts s
                   then \<lparr>EventType = EVENT_TAG_NO_EVENT c,
                         ByteArray = P @ drop (length P) (ByteArray (deref (tRemoteTouchEventPtr c T) s))\<rparr>
                   else \<lparr>EventType = T,
                         ByteArray = P @ drop (length P) (ByteArray (deref (tRemoteTouchEventPtr c T) s))\<rparr>)
                  (s\<lparr>sReceiveBuffer := P @ drop (length P) (sReceiveBuffer s)\<rparr>))"
proof -
  let ?s3 = "s\<lparr>sReceiveBuffer := P @ drop (length P) (sReceiveBuffer s),
                  sReceiveBufferIndex := tDataSize c T, sReceivedEventType := T\<rparr>"
  have n: "length P = unat (tDataSize c T)" using assms(1,4) by (rule length_payload)
  have le: "length P \<le> RECEIVE_CALLBACK_DATA_SIZE c"
    using assms(1) n by (simp add: tDataSize_le)
  have T: "T \<noteq> EVENT_TAG_NO_EVENT c" using assms(4) by (simp add: payload_ok_def)
  have col: "receive_bytes c (len # T # P) s = Inr ?s3"
    using assms by (rule frame_collected)
  have "receive_bytes c (event_frame c len T P) s = receive_bytes c ((len # T # P) @ [SYNC_TOKEN c]) s"
    by (simp add: event_frame_def)
  also have "\<dots> = USART_RX_vect c (SYNC_TOKEN c) ?s3"
    by (simp only: receive_bytes_append col sum.case) (simp split: sum.splits)
  also have "\<dots> = event_complete c ?s3"
    using assms(3) T by (simp add: USART_RX_vect_def receiver_reset_def)
  also have "\<dots> = Inr (assign (tRemoteTouchEventPtr c T)
                  (if allowTouchInterrupts s
                   then \<lparr>EventType = EVENT_TAG_NO_EVENT c,
                         ByteArray = P @ drop (length P) (ByteArray (deref (tRemoteTouchEventPtr c T) s))\<rparr>
                   else \<lparr>EventType = T,
                         ByteArray = P @ drop (length P) (ByteArray (deref (tRemoteTouchEventPtr c T) s))\<rparr>)
                  (s\<lparr>sReceiveBuffer := P @ drop (length P) (sReceiveBuffer s)\<rparr>))"
    using assms(2,3) le T
    by (cases "tRemoteTouchEventPtr c T")
      (simp_all add: event_complete_def memcpy_def n [symmetric] arrays_ok_def handleEvent_def
        receiver_reset_def Let_def)
  finally show ?thesis .
qed

lemma frame_rejected:
  assumes "constants_ok c" and "arrays_ok c s" and "receiver_reset c s" and "payload_ok c T P"
    and "tByte \<noteq> SYNC_TOKEN c"
  shows "receive_bytes c (len # T # P @ [tByte]) s =
           Inr (s\<lparr>sReceiveBuffer := P @ drop (length P) (sReceiveBuffer s),
                  sReceiveBufferOutOfSync := True, sReceivedEventType := T\<rparr>)"
proof -
  let ?s3 = "s\<lparr>sReceiveBuffer := P @ drop (length P) (sReceiveBuffer s),
                  sReceiveBufferIndex := tDataSize c T, sReceivedEventType := T\<rparr>"
  have T: "T \<noteq> EVENT_TAG_NO_EVENT c" using assms(4) by (simp add: payload_ok_def)
  have col: "receive_bytes c (len # T # P) s = Inr ?s3"
    using assms(1-4) by (rule frame_collected)
  have "receive_bytes c ((len # T # P) @ [tByte]) s = USART_RX_vect c tByte ?s3"
    by (simp only: receive_bytes_append col sum.case) (simp split: sum.splits)
  also have "\<dots> = Inr (?s3\<lparr>sReceiveBufferOutOfSync := True, sReceiveBufferIndex := 0\<rparr>)"
    using assms(3,5) T by (intro mismatch_step) (simp_all add: receiver_reset_def)
  finally show ?thesis using assms(3) by (simp add: receiver_reset_def)
qed

lemma frame_keeps_ready:
  assumes "constants_ok c" and "arrays_ok c s" and "receiver_reset c s" and "payload_ok c T P"
  shows "\<exists>s'. receive_bytes c (event_frame c len T P) s = Inr s' \<and>
           arrays_ok c s' \<and> receiver_reset c s' \<and>
           allowTouchInterrupts s' = allowTouchInterrupts s"
proof -
  have "length P \<le> RECEIVE_CALLBACK_DATA_SIZE c"
    using assms(1,4) by (simp add: length_payload tDataSize_le)
  then show ?thesis
    using frame_delivered [OF assms, of len] assms(2,3)
    by (cases "tRemoteTouchEventPtr c T") (simp_all add: arrays_ok_def receiver_reset_def)
qed

lemma frames_keep_ready:
  assumes "constants_ok c"
  shows "arrays_ok c s \<Longrightarrow> receiver_reset c s \<Longrightarrow> frames_ok c fs \<Longrightarrow>
         \<exists>s'. receive_bytes c (event_frames c fs) s = Inr s' \<and>
           arrays_ok c s' \<and> receiver_reset c s' \<and>
           allowTouchInterrupts s' = allowTouchInterrupts s"
proof (induction fs arbitrary: s)
  case Nil
  then show ?case by (simp add: event_frames_def)
next
  case (Cons f fs)
  obtain len T P where f: "f = (len, T, P)" by (cases f) auto
  from Cons.prems(3) have ok: "payload_ok c T P" and oks: "frames_ok c fs"
    by (simp_all add: frames_ok_def f)
  obtain s1 where s1: "receive_bytes c (event_frame c len T P) s = Inr s1"
    "arrays_ok c s1" "receiver_reset c s1" "allowTouchInterrupts s1 = allowTouchInterrupts s"
    using frame_keeps_ready [OF assms Cons.prems(1,2) ok, of len] by blast
  obtain s' where s': "receive_bytes c (event_frames c fs) s1 = Inr s'"
    "arrays_ok c s'" "receiver_reset c s'" "allowTouchInterrupts s' = allowTouchInterrupts s1"
    using Cons.IH [OF s1(2,3) oks] by blast
  have "event_frames c (f # fs) = event_frame c len T P @ event_frames c fs"
    by (simp add: event_frames_def f)
  then have "receive_bytes c (event_frames c (f # fs)) s = Inr s'"
    by (simp add: receive_bytes_append s1(1) s'(1))
  with s' s1(4) show ?case by simp
qed

subsection \<open>The invariant\<close>

lemma receiver_ok_init: "constants_ok c \<Longrightarrow> receiver_ok c (initial_receiver c)"
  by (simp add: receiver_ok_def arrays_ok_def initial_receiver_def)

lemma receiver_ok_step:
  assumes c: "constants_ok c" and ok: "receiver_ok c s"
  shows "\<exists>s'. USART_RX_vect c tByte s = Inr s' \<and> receiver_ok c s' \<and>
           (sReceiveBuffer s' = sReceiveBuffer s \<or>
            unat (sReceiveBufferIndex s) < unat (tDataSize c (sReceivedEventType s)) \<and>
            sReceiveBuffer s' = (sReceiveBuffer s)[unat (sReceiveBufferIndex s) := tByte])"
proof -
  from ok have arr: "arrays_ok c s" by (simp add: receiver_ok_def)
  have size: "unat (tDataSize c T) \<le> RECEIVE_CALLBACK_DATA_SIZE c" for T
    using c by (rule tDataSize_le)
  have pos: "0 < unat (tDataSize c T)" for T
    using c by (rule tDataSize_pos)
  have len: "length (sReceiveBuffer s) = RECEIVE_CALLBACK_DATA_SIZE c"
    using arr by (simp add: arrays_ok_def)
  consider (lost) "sReceiveBufferOutOfSync s"
    | (tag) "\<not> sReceiveBufferOutOfSync s" "sReceivedEventType s = EVENT_TAG_NO_EVENT c"
        "sReceiveBufferIndex s = 1"
    | (length_byte) "\<not> sReceiveBufferOutOfSync s" "sReceivedEventType s = EVENT_TAG_NO_EVENT c"
        "sReceiveBufferIndex s \<noteq> 1"
    | (full) "\<not> sReceiveBufferOutOfSync s" "sReceivedEventType s \<noteq> EVENT_TAG_NO_EVENT c"
        "sReceiveBufferIndex s = tDataSize c (sReceivedEventType s)"
    | (payload) "\<not> sReceiveBufferOutOfSync s" "sReceivedEventType s \<noteq> EVENT_TAG_NO_EVENT c"
        "sReceiveBufferIndex s \<noteq> tDataSize c (sReceivedEventType s)"
    by blast
  then show ?thesis
  proof cases
    case lost
    with ok show ?thesis
      by (simp add: USART_RX_vect_def receiver_ok_def arrays_ok_def)
  next
    case tag
    with ok show ?thesis
      by (simp add: USART_RX_vect_def receiver_ok_def arrays_ok_def)
  next
    case length_byte
    with ok have i: "sReceiveBufferIndex s = 0"
      by (simp add: receiver_ok_def index_zero_or_one)
    have "0 < length (sReceiveBuffer s)"
      using pos [of 0] size [of 0] len by simp
    with length_byte i ok pos [of "sReceivedEventType s"] show ?thesis
      by (simp add: USART_RX_vect_def store_byte_def receiver_ok_def arrays_ok_def)
  next
    case full
    let ?n = "unat (tDataSize c (sReceivedEventType s))"
    let ?p = "tRemoteTouchEventPtr c (sReceivedEventType s)"
    have dst: "length (ByteArray (deref ?p s)) = RECEIVE_CALLBACK_DATA_SIZE c"
      using arr by (cases ?p) (simp_all add: arrays_ok_def)
    have n: "?n \<le> RECEIVE_CALLBACK_DATA_SIZE c" by (rule size)
    show ?thesis
    proof (cases "tByte = SYNC_TOKEN c")
      case True
      with full n dst len arr show ?thesis
        by (cases ?p)
          (simp_all add: USART_RX_vect_def event_complete_def memcpy_def Let_def receiver_ok_def
            arrays_ok_def handleEvent_def)
    next
      case False
      with full ok show ?thesis
        by (simp add: USART_RX_vect_def receiver_ok_def arrays_ok_def)
    qed
  next
    case payload
    with ok have lt: "unat (sReceiveBufferIndex s) < unat (tDataSize c (sReceivedEventType s))"
      by (simp add: receiver_ok_def index_below_size)
    have le: "unat (tDataSize c (sReceivedEventType s)) \<le> length (sReceiveBuffer s)"
      using size len by simp
    have "unat (tDataSize c (sReceivedEventType s)) \<le> 255"
      using unsigned_less [of "tDataSize c (sReceivedEventType s)", where 'a = nat] by simp
    with lt have suc: "unat (sReceiveBufferIndex s + 1) = Suc (unat (sReceiveBufferIndex s))"
      by (rule unat_index_Suc)
    from payload lt le suc arr show ?thesis
      by (simp add: collect_step receiver_ok_def arrays_ok_def)
  qed
qed

lemma receiver_ok_run:
  assumes "constants_ok c"
  shows "receiver_ok c s \<Longrightarrow> \<exists>s'. receive_bytes c bs s = Inr s' \<and> receiver_ok c s'"
proof (induction bs arbitrary: s)
  case Nil
  then show ?case by simp
next
  case (Cons b bs)
  obtain s1 where s1: "USART_RX_vect c b s = Inr s1" "receiver_ok c s1"
    using receiver_ok_step [OF assms Cons.prems, of b] by blast
  from Cons.IH [OF s1(2)] s1(1) show ?case by simp
qed

lemma receiver_ok_bound:
  assumes "constants_ok c" and "receiver_ok c s"
  shows "unat (sReceiveBufferIndex s) \<le> unat (tDataSize c (sReceivedEventType s)) \<and>
         unat (tDataSize c (sReceivedEventType s)) \<le> RECEIVE_CALLBACK_DATA_SIZE c \<and>
         length (sReceiveBuffer s) = RECEIVE_CALLBACK_DATA_SIZE c"
proof -
  have "1 \<le> unat (tDataSize c (sReceivedEventType s))"
    using tDataSize_pos [OF assms(1), of "sReceivedEventType s"] by simp
  with assms(2) have "unat (sReceiveBufferIndex s) \<le> unat (tDataSize c (sReceivedEventType s))"
    by (cases "sReceivedEventType s = EVENT_TAG_NO_EVENT c") (simp_all add: receiver_ok_def)
  with assms show ?thesis
    by (simp add: tDataSize_le receiver_ok_def arrays_ok_def)
qed

subsection \<open>Evaluation of concrete runs\<close>

lemma replicate_12: "replicate 12 x = [x, x, x, x, x, x, x, x, x, x, x, x]"
  by (simp add: numeral_eq_Suc)

lemmas receiver_eval =
  event_frame_def event_frames_def frames_ok_def initial_receiver_def avr_constants_def
  USART_RX_vect_def store_byte_def tDataSize_def event_complete_def memcpy_def
  tRemoteTouchEventPtr_def RECEIVE_CALLBACK_DATA_SIZE_def RECEIVE_TOUCH_OR_DISPLAY_DATA_SIZE_def
  Let_def constants_ok_def arrays_ok_def receiver_reset_def payload_ok_def handleEvent_def
  receiver_ok_def replicate_12

subsection \<open>Framing round trip\<close>

text \<open>
  Claim C1, as stated, with \<open>allowTouchInterrupts\<close> set: the routine calls
  \<^verbatim>\<open>handleEvent\<close> on the slot it has just filled, and the handler clears the event type
  of the slot. After a touch frame with tag 1 the slot holds the payload, and the event
  type \<open>EVENT_TAG_NO_EVENT\<close> instead of 1.
\<close>

theorem framing_round_trip_counterexample:
  "constants_ok avr_constants \<and>
   arrays_ok avr_constants ((initial_receiver avr_constants)\<lparr>allowTouchInterrupts := True\<rparr>) \<and>
   receiver_reset avr_constants ((initial_receiver avr_constants)\<lparr>allowTouchInterrupts := True\<rparr>) \<and>
   payload_ok avr_constants 0x01 [1, 2, 3, 4] \<and>
   tRemoteTouchEventPtr avr_constants 0x01 = RemoteTouchEvent \<and>
   receive_bytes avr_constants (event_frame avr_constants 6 0x01 [1, 2, 3, 4])
     ((initial_receiver avr_constants)\<lparr>allowTouchInterrupts := True\<rparr>) =
     Inr \<lparr>sReceiveBuffer = [1, 2, 3, 4, 0, 0, 0, 0, 0, 0, 0, 0],
          sReceiveBufferIndex = 0, sReceiveBufferOutOfSync = False,
          sReceivedEventType = 0xFF,
          remoteTouchEvent = \<lparr>EventType = 0xFF, ByteArray = [1, 2, 3, 4, 0, 0, 0, 0, 0, 0, 0, 0]\<rparr>,
          remoteTouchDownEvent = \<lparr>EventType = 0xFF, ByteArray = [0, 0, 0, 0, 0, 0, 0, 0, 0, 0, 0, 0]\<rparr>,
          allowTouchInterrupts = True\<rparr> \<and>
   (0xFF :: uint8_t) \<noteq> 0x01"
  by (simp add: receiver_eval)

text \<open>
  Claim C1, amended. The receiver is in its reset state (in sync, no event type, index
  0) and \<open>allowTouchInterrupts\<close> is false, as it is initially. For every tag \<open>T\<close> other
  than \<open>EVENT_TAG_NO_EVENT\<close> and every payload \<open>P\<close> of the size the tag implies (4 below
  \<open>EVENT_TAG_FIRST_CALLBACK_ACTION_CODE\<close>, the callback data size otherwise), feeding the
  bytes length, \<open>T\<close>, \<open>P\<close>, sync token one at a time to the interrupt routine raises no fault
  and leaves the destination slot with event type \<open>T\<close> and with \<open>P\<close> as its first
  \<open>length P\<close> payload bytes.
\<close>

theorem framing_round_trip:
  assumes "constants_ok c" and "arrays_ok c s" and "receiver_reset c s" and "payload_ok c T P"
    and "\<not> allowTouchInterrupts s"
  shows "\<exists>s'. receive_bytes c (event_frame c len T P) s = Inr s' \<and>
           EventType (deref (tRemoteTouchEventPtr c T) s') = T \<and>
           take (length P) (ByteArray (deref (tRemoteTouchEventPtr c T) s')) = P"
  using frame_delivered [OF assms(1-4), of len] assms(5)
  by (cases "tRemoteTouchEventPtr c T") simp_all

theorem framing_round_trip_witness:
  "constants_ok avr_constants \<and> arrays_ok avr_constants (initial_receiver avr_constants) \<and>
   receiver_reset avr_constants (initial_receiver avr_constants) \<and>
   payload_ok avr_constants 0x01 [1, 2, 3, 4] \<and>
   \<not> allowTouchInterrupts (initial_receiver avr_constants) \<and>
   receive_bytes avr_constants (event_frame avr_constants 6 0x01 [1, 2, 3, 4])
     (initial_receiver avr_constants) =
     Inr \<lparr>sReceiveBuffer = [1, 2, 3, 4, 0, 0, 0, 0, 0, 0, 0, 0],
          sReceiveBufferIndex = 0, sReceiveBufferOutOfSync = False,
          sReceivedEventType = 0xFF,
          remoteTouchEvent = \<lparr>EventType = 0x01, ByteArray = [1, 2, 3, 4, 0, 0, 0, 0, 0, 0, 0, 0]\<rparr>,
          remoteTouchDownEvent = \<lparr>EventType = 0xFF, ByteArray = [0, 0, 0, 0, 0, 0, 0, 0, 0, 0, 0, 0]\<rparr>,
          allowTouchInterrupts = False\<rparr>"
proof -
  have h1: "constants_ok avr_constants"
    and h2: "arrays_ok avr_constants (initial_receiver avr_constants)"
    and h3: "receiver_reset avr_constants (initial_receiver avr_constants)"
    and h4: "payload_ok avr_constants 0x01 [1, 2, 3, 4]"
    and h5: "\<not> allowTouchInterrupts (initial_receiver avr_constants)"
    by (simp_all add: receiver_eval)
  show ?thesis
    using h1 h2 h3 h4 h5 framing_round_trip [OF h1 h2 h3 h4 h5, of 6]
    by (simp add: receiver_eval)
qed

subsection \<open>A wrong byte in place of the trailing sync token\<close>

text \<open>
  Claim C3. When the receiver is in sync, knows an event type, has its index at the data
  size of that type, and the next byte is not the sync token, the interrupt routine sets
  the out-of-sync flag and the index to 0 and changes nothing else: both event slots keep
  their event type and payload. For a whole frame fed to a receiver in its reset state,
  with a wrong byte in place of the sync token, the receiver ends out of sync with index
  0 and both slots are as they were before the frame.
\<close>

theorem trailing_sync_mismatch:
  assumes "\<not> sReceiveBufferOutOfSync s" and "sReceivedEventType s \<noteq> EVENT_TAG_NO_EVENT c"
    and "sReceiveBufferIndex s = tDataSize c (sReceivedEventType s)"
    and "tByte \<noteq> SYNC_TOKEN c"
  shows "(\<exists>s'. USART_RX_vect c tByte s = Inr s' \<and>
           sReceiveBufferOutOfSync s' \<and> sReceiveBufferIndex s' = 0 \<and>
           remoteTouchEvent s' = remoteTouchEvent s \<and>
           remoteTouchDownEvent s' = remoteTouchDownEvent s \<and>
           s' = s\<lparr>sReceiveBufferOutOfSync := True, sReceiveBufferIndex := 0\<rparr>) \<and>
         (constants_ok c \<and> arrays_ok c s0 \<and> receiver_reset c s0 \<and> payload_ok c T P \<longrightarrow>
           (\<exists>s'. receive_bytes c (len # T # P @ [tByte]) s0 = Inr s' \<and>
             sReceiveBufferOutOfSync s' \<and> sReceiveBufferIndex s' = 0 \<and>
             remoteTouchEvent s' = remoteTouchEvent s0 \<and>
             remoteTouchDownEvent s' = remoteTouchDownEvent s0))"
proof (intro conjI impI)
  show "\<exists>s'. USART_RX_vect c tByte s = Inr s' \<and>
           sReceiveBufferOutOfSync s' \<and> sReceiveBufferIndex s' = 0 \<and>
           remoteTouchEvent s' = remoteTouchEvent s \<and>
           remoteTouchDownEvent s' = remoteTouchDownEvent s \<and>
           s' = s\<lparr>sReceiveBufferOutOfSync := True, sReceiveBufferIndex := 0\<rparr>"
    using mismatch_step [OF assms] by simp
next
  assume h: "constants_ok c \<and> arrays_ok c s0 \<and> receiver_reset c s0 \<and> payload_ok c T P"
  then have "receive_bytes c (len # T # P @ [tByte]) s0 =
           Inr (s0\<lparr>sReceiveBuffer := P @ drop (length P) (sReceiveBuffer s0),
                  sReceiveBufferOutOfSync := True, sReceivedEventType := T\<rparr>)"
    using assms(4) by (intro frame_rejected) simp_all
  with h show "\<exists>s'. receive_bytes c (len # T # P @ [tByte]) s0 = Inr s' \<and>
             sReceiveBufferOutOfSync s' \<and> sReceiveBufferIndex s' = 0 \<and>
             remoteTouchEvent s' = remoteTouchEvent s0 \<and>
             remoteTouchDownEvent s' = remoteTouchDownEvent s0"
    by (simp add: receiver_reset_def)
qed

theorem trailing_sync_mismatch_witness:
  "\<not> sReceiveBufferOutOfSync
       ((initial_receiver avr_constants)\<lparr>sReceiveBufferIndex := 4, sReceivedEventType := 0x01\<rparr>) \<and>
   sReceivedEventType
       ((initial_receiver avr_constants)\<lparr>sReceiveBufferIndex := 4, sReceivedEventType := 0x01\<rparr>)
     \<noteq> EVENT_TAG_NO_EVENT avr_constants \<and>
   sReceiveBufferIndex
       ((initial_receiver avr_constants)\<lparr>sReceiveBufferIndex := 4, sReceivedEventType := 0x01\<rparr>)
     = tDataSize avr_constants 0x01 \<and>
   (0x00 :: uint8_t) \<noteq> SYNC_TOKEN avr_constants \<and>
   USART_RX_vect avr_constants 0x00
       ((initial_receiver avr_constants)\<lparr>sReceiveBufferIndex := 4, sReceivedEventType := 0x01\<rparr>) =
     Inr ((initial_receiver avr_constants)\<lparr>sReceiveBufferIndex := 0, sReceivedEventType := 0x01,
            sReceiveBufferOutOfSync := True\<rparr>) \<and>
   receive_bytes avr_constants [6, 0x01, 1, 2, 3, 4, 0x00] (initial_receiver avr_constants) =
     Inr \<lparr>sReceiveBuffer = [1, 2, 3, 4, 0, 0, 0, 0, 0, 0, 0, 0],
          sReceiveBufferIndex = 0, sReceiveBufferOutOfSync = True,
          sReceivedEventType = 0x01,
          remoteTouchEvent = \<lparr>EventType = 0xFF, ByteArray = [0, 0, 0, 0, 0, 0, 0, 0, 0, 0, 0, 0]\<rparr>,
          remoteTouchDownEvent = \<lparr>EventType = 0xFF, ByteArray = [0, 0, 0, 0, 0, 0, 0, 0, 0, 0, 0, 0]\<rparr>,
          allowTouchInterrupts = False\<rparr>"
proof -
  let ?s = "(initial_receiver avr_constants)\<lparr>sReceiveBufferIndex := 4, sReceivedEventType := 0x01\<rparr>"
  have h1: "\<not> sReceiveBufferOutOfSync ?s"
    and h2: "sReceivedEventType ?s \<noteq> EVENT_TAG_NO_EVENT avr_constants"
    and h3: "sReceiveBufferIndex ?s = tDataSize avr_constants (sReceivedEventType ?s)"
    and h4: "(0x00 :: uint8_t) \<noteq> SYNC_TOKEN avr_constants"
    by (simp_all add: receiver_eval)
  show ?thesis
    using h1 h2 h3 h4
      trailing_sync_mismatch [OF h1 h2 h3 h4, of "initial_receiver avr_constants" "0x01"
        "[1, 2, 3, 4]" 6]
    by (simp add: receiver_eval)
qed

subsection \<open>Resynchronisation\<close>

text \<open>
  Claim C4. While the receiver is out of sync, bytes other than the sync token leave
  the whole state as it is. The first sync token clears the flag, sets the event type to
  \<open>EVENT_TAG_NO_EVENT\<close> and the index to 0 in that one step, which is the reset state.
  Well-formed frames that follow are framed correctly: after any number of them, a
  further frame ends with the receiver in its reset state and its payload in the
  destination slot, whose event type is the tag of the frame, or, when
  \<open>allowTouchInterrupts\<close> is set, the \<open>EVENT_TAG_NO_EVENT\<close> left by the handler.
\<close>

theorem resync_convergence:
  assumes "sReceiveBufferOutOfSync s" and "SYNC_TOKEN c \<notin> set junk"
  shows "receive_bytes c junk s = Inr s \<and>
         receive_bytes c (junk @ [SYNC_TOKEN c]) s =
           Inr (s\<lparr>sReceiveBufferOutOfSync := False, sReceivedEventType := EVENT_TAG_NO_EVENT c,
                  sReceiveBufferIndex := 0\<rparr>) \<and>
         receiver_reset c (s\<lparr>sReceiveBufferOutOfSync := False,
                  sReceivedEventType := EVENT_TAG_NO_EVENT c, sReceiveBufferIndex := 0\<rparr>) \<and>
         (constants_ok c \<and> arrays_ok c s \<and> frames_ok c fs \<and> payload_ok c T P \<longrightarrow>
            (\<exists>s'. receive_bytes c
                     (junk @ SYNC_TOKEN c # event_frames c fs @ event_frame c len T P) s = Inr s' \<and>
               receiver_reset c s' \<and>
               take (length P) (ByteArray (deref (tRemoteTouchEventPtr c T) s')) = P \<and>
               EventType (deref (tRemoteTouchEventPtr c T) s') =
                 (if allowTouchInterrupts s then EVENT_TAG_NO_EVENT c else T)))"
proof (intro conjI impI)
  let ?s0 = "s\<lparr>sReceiveBufferOutOfSync := False, sReceivedEventType := EVENT_TAG_NO_EVENT c,
                  sReceiveBufferIndex := 0\<rparr>"
  show junk: "receive_bytes c junk s = Inr s"
    using assms by (rule out_of_sync_junk)
  show tok: "receive_bytes c (junk @ [SYNC_TOKEN c]) s = Inr ?s0"
    by (simp add: receive_bytes_append junk out_of_sync_token [OF assms(1)])
  show reset: "receiver_reset c ?s0"
    by (simp add: receiver_reset_def)
  assume h: "constants_ok c \<and> arrays_ok c s \<and> frames_ok c fs \<and> payload_ok c T P"
  then have c: "constants_ok c" and ok: "payload_ok c T P" and oks: "frames_ok c fs"
    and a0: "arrays_ok c ?s0"
    by (simp_all add: arrays_ok_def)
  obtain s1 where s1: "receive_bytes c (event_frames c fs) ?s0 = Inr s1"
    "arrays_ok c s1" "receiver_reset c s1" "allowTouchInterrupts s1 = allowTouchInterrupts ?s0"
    using frames_keep_ready [OF c a0 reset oks] by blast
  have T: "T \<noteq> EVENT_TAG_NO_EVENT c" using ok by (simp add: payload_ok_def)
  have "receive_bytes c ((junk @ [SYNC_TOKEN c]) @ event_frames c fs @ event_frame c len T P) s =
          receive_bytes c (event_frames c fs @ event_frame c len T P) ?s0"
    by (subst receive_bytes_append) (simp only: tok sum.case)
  also have "\<dots> = receive_bytes c (event_frame c len T P) s1"
    by (subst receive_bytes_append) (simp only: s1(1) sum.case)
  finally have "receive_bytes c (junk @ SYNC_TOKEN c # event_frames c fs @ event_frame c len T P) s =
          receive_bytes c (event_frame c len T P) s1"
    by simp
  then show "\<exists>s'. receive_bytes c
                     (junk @ SYNC_TOKEN c # event_frames c fs @ event_frame c len T P) s = Inr s' \<and>
               receiver_reset c s' \<and>
               take (length P) (ByteArray (deref (tRemoteTouchEventPtr c T) s')) = P \<and>
               EventType (deref (tRemoteTouchEventPtr c T) s') =
                 (if allowTouchInterrupts s then EVENT_TAG_NO_EVENT c else T)"
    using frame_delivered [OF c s1(2,3) ok, of len] s1(3,4)
    by (cases "tRemoteTouchEventPtr c T") (simp_all add: receiver_reset_def)
qed

theorem resync_convergence_witness:
  "sReceiveBufferOutOfSync ((initial_receiver avr_constants)\<lparr>sReceiveBufferOutOfSync := True\<rparr>) \<and>
   SYNC_TOKEN avr_constants \<notin> set [0x01, 0x02] \<and>
   constants_ok avr_constants \<and>
   arrays_ok avr_constants ((initial_receiver avr_constants)\<lparr>sReceiveBufferOutOfSync := True\<rparr>) \<and>
   frames_ok avr_constants [(6, 0x02, [9, 9, 9, 9])] \<and>
   payload_ok avr_constants 0x01 [1, 2, 3, 4] \<and>
   receive_bytes avr_constants [0x01, 0x02]
       ((initial_receiver avr_constants)\<lparr>sReceiveBufferOutOfSync := True\<rparr>) =
     Inr ((initial_receiver avr_constants)\<lparr>sReceiveBufferOutOfSync := True\<rparr>) \<and>
   receive_bytes avr_constants ([0x01, 0x02] @ [SYNC_TOKEN avr_constants])
       ((initial_receiver avr_constants)\<lparr>sReceiveBufferOutOfSync := True\<rparr>) =
     Inr (initial_receiver avr_constants) \<and>
   receive_bytes avr_constants
       ([0x01, 0x02] @ SYNC_TOKEN avr_constants # event_frames avr_constants [(6, 0x02, [9, 9, 9, 9])] @
        event_frame avr_constants 6 0x01 [1, 2, 3, 4])
       ((initial_receiver avr_constants)\<lparr>sReceiveBufferOutOfSync := True\<rparr>) =
     Inr \<lparr>sReceiveBuffer = [1, 2, 3, 4, 0, 0, 0, 0, 0, 0, 0, 0],
          sReceiveBufferIndex = 0, sReceiveBufferOutOfSync = False,
          sReceivedEventType = 0xFF,
          remoteTouchEvent = \<lparr>EventType = 0x01, ByteArray = [1, 2, 3, 4, 0, 0, 0, 0, 0, 0, 0, 0]\<rparr>,
          remoteTouchDownEvent = \<lparr>EventType = 0xFF, ByteArray = [0, 0, 0, 0, 0, 0, 0, 0, 0, 0, 0, 0]\<rparr>,
          allowTouchInterrupts = False\<rparr>"
proof -
  let ?s = "(initial_receiver avr_constants)\<lparr>sReceiveBufferOutOfSync := True\<rparr>"
  have h1: "sReceiveBufferOutOfSync ?s"
    and h2: "SYNC_TOKEN avr_constants \<notin> set [0x01, 0x02]"
    by (simp_all add: receiver_eval)
  show ?thesis
    using h1 h2
      resync_convergence [OF h1 h2, of "[(6, 0x02, [9, 9, 9, 9])]" "0x01" "[1, 2, 3, 4]" 6]
    by (simp add: receiver_eval)
qed

subsection \<open>The touch-down slot\<close>

text \<open>
  Claim C5. A well-formed frame whose tag is not \<open>EVENT_TAG_TOUCH_ACTION_DOWN\<close>, fed to
  a receiver in its reset state, leaves the touch-down slot as it was, event type and
  payload, whatever it holds (an unconsumed touch-down event in particular): the slot
  the routine writes is the general one, which receives the payload.
\<close>

theorem down_event_protection:
  assumes "constants_ok c" and "arrays_ok c s" and "receiver_reset c s" and "payload_ok c T P"
    and "T \<noteq> EVENT_TAG_TOUCH_ACTION_DOWN c"
  shows "\<exists>s'. receive_bytes c (event_frame c len T P) s = Inr s' \<and>
           remoteTouchDownEvent s' = remoteTouchDownEvent s \<and>
           tRemoteTouchEventPtr c T = RemoteTouchEvent \<and>
           take (length P) (ByteArray (remoteTouchEvent s')) = P"
proof -
  from assms(5) have p: "tRemoteTouchEventPtr c T = RemoteTouchEvent"
    by (simp add: tRemoteTouchEventPtr_def)
  show ?thesis
    using frame_delivered [OF assms(1-4), of len] by (simp add: p)
qed

theorem down_event_protection_witness:
  "constants_ok avr_constants \<and>
   arrays_ok avr_constants
     ((initial_receiver avr_constants)
        \<lparr>remoteTouchDownEvent := \<lparr>EventType = 0x00, ByteArray = [10, 0, 20, 0, 0, 0, 0, 0, 0, 0, 0, 0]\<rparr>\<rparr>) \<and>
   receiver_reset avr_constants
     ((initial_receiver avr_constants)
        \<lparr>remoteTouchDownEvent := \<lparr>EventType = 0x00, ByteArray = [10, 0, 20, 0, 0, 0, 0, 0, 0, 0, 0, 0]\<rparr>\<rparr>) \<and>
   payload_ok avr_constants 0x02 [11, 0, 21, 0] \<and>
   (0x02 :: uint8_t) \<noteq> EVENT_TAG_TOUCH_ACTION_DOWN avr_constants \<and>
   receive_bytes avr_constants (event_frame avr_constants 6 0x02 [11, 0, 21, 0])
     ((initial_receiver avr_constants)
        \<lparr>remoteTouchDownEvent := \<lparr>EventType = 0x00, ByteArray = [10, 0, 20, 0, 0, 0, 0, 0, 0, 0, 0, 0]\<rparr>\<rparr>) =
     Inr \<lparr>sReceiveBuffer = [11, 0, 21, 0, 0, 0, 0, 0, 0, 0, 0, 0],
          sReceiveBufferIndex = 0, sReceiveBufferOutOfSync = False,
          sReceivedEventType = 0xFF,
          remoteTouchEvent = \<lparr>EventType = 0x02, ByteArray = [11, 0, 21, 0, 0, 0, 0, 0, 0, 0, 0, 0]\<rparr>,
          remoteTouchDownEvent = \<lparr>EventType = 0x00, ByteArray = [10, 0, 20, 0, 0, 0, 0, 0, 0, 0, 0, 0]\<rparr>,
          allowTouchInterrupts = False\<rparr>"
proof -
  let ?s = "(initial_receiver avr_constants)
        \<lparr>remoteTouchDownEvent := \<lparr>EventType = 0x00, ByteArray = [10, 0, 20, 0, 0, 0, 0, 0, 0, 0, 0, 0]\<rparr>\<rparr>"
  have h1: "constants_ok avr_constants" and h2: "arrays_ok avr_constants ?s"
    and h3: "receiver_reset avr_constants ?s" and h4: "payload_ok avr_constants 0x02 [11, 0, 21, 0]"
    and h5: "(0x02 :: uint8_t) \<noteq> EVENT_TAG_TOUCH_ACTION_DOWN avr_constants"
    by (simp_all add: receiver_eval)
  show ?thesis
    using h1 h2 h3 h4 h5 down_event_protection [OF h1 h2 h3 h4 h5, of 6]
    by (simp add: receiver_eval)
qed

subsection \<open>Header bytes and data size\<close>

text \<open>
  Claim C6, as stated, at a second byte equal to \<open>EVENT_TAG_NO_EVENT\<close>: the byte becomes
  the event type, which is the value that means no event type is known, so the receiver
  is in its reset state again and no payload is collected. The next two bytes are taken
  as a length and a tag: after the bytes 6, 0xFF, 7, 8 the event type is 8 and the index
  is 0, where a payload collection of the callback data size would have stored 7 and 8 and
  left the index at 2.
\<close>

theorem header_decoding_counterexample:
  "receiver_reset avr_constants (initial_receiver avr_constants) \<and>
   EVENT_TAG_NO_EVENT avr_constants = 0xFF \<and>
   \<not> (0xFF :: uint8_t) < EVENT_TAG_FIRST_CALLBACK_ACTION_CODE avr_constants \<and>
   RECEIVE_CALLBACK_DATA_SIZE avr_constants = 12 \<and>
   receive_bytes avr_constants [6, 0xFF] (initial_receiver avr_constants) =
     Inr \<lparr>sReceiveBuffer = [6, 0, 0, 0, 0, 0, 0, 0, 0, 0, 0, 0],
          sReceiveBufferIndex = 0, sReceiveBufferOutOfSync = False,
          sReceivedEventType = 0xFF,
          remoteTouchEvent = \<lparr>EventType = 0xFF, ByteArray = [0, 0, 0, 0, 0, 0, 0, 0, 0, 0, 0, 0]\<rparr>,
          remoteTouchDownEvent = \<lparr>EventType = 0xFF, ByteArray = [0, 0, 0, 0, 0, 0, 0, 0, 0, 0, 0, 0]\<rparr>,
          allowTouchInterrupts = False\<rparr> \<and>
   receive_bytes avr_constants [6, 0xFF, 7, 8] (initial_receiver avr_constants) =
     Inr \<lparr>sReceiveBuffer = [7, 0, 0, 0, 0, 0, 0, 0, 0, 0, 0, 0],
          sReceiveBufferIndex = 0, sReceiveBufferOutOfSync = False,
          sReceivedEventType = 8,
          remoteTouchEvent = \<lparr>EventType = 0xFF, ByteArray = [0, 0, 0, 0, 0, 0, 0, 0, 0, 0, 0, 0]\<rparr>,
          remoteTouchDownEvent = \<lparr>EventType = 0xFF, ByteArray = [0, 0, 0, 0, 0, 0, 0, 0, 0, 0, 0, 0]\<rparr>,
          allowTouchInterrupts = False\<rparr> \<and>
   receive_bytes avr_constants [6, 0xFF, 7, 8] (initial_receiver avr_constants) \<noteq>
     Inr \<lparr>sReceiveBuffer = [7, 8, 0, 0, 0, 0, 0, 0, 0, 0, 0, 0],
          sReceiveBufferIndex = 2, sReceiveBufferOutOfSync = False,
          sReceivedEventType = 0xFF,
          remoteTouchEvent = \<lparr>EventType = 0xFF, ByteArray = [0, 0, 0, 0, 0, 0, 0, 0, 0, 0, 0, 0]\<rparr>,
          remoteTouchDownEvent = \<lparr>EventType = 0xFF, ByteArray = [0, 0, 0, 0, 0, 0, 0, 0, 0, 0, 0, 0]\<rparr>,
          allowTouchInterrupts = False\<rparr>"
  by (simp add: receiver_eval)

text \<open>
  Claim C6, amended. From the reset state the routine takes two bytes before it collects
  a payload. The first one, the length, is stored in \<open>sReceiveBuffer[0]\<close> and the index
  becomes 1; the second one becomes the event type and the index goes back to 0. When the
  second byte is \<open>EVENT_TAG_NO_EVENT\<close> that is the reset state again. When it is any other
  tag, the routine collects a payload of 4 bytes for a tag below
  \<open>EVENT_TAG_FIRST_CALLBACK_ACTION_CODE\<close> and of the callback data size otherwise: up to
  that many bytes, whatever their values, are stored from index 0 on, overwriting the
  length byte, and the byte after exactly that many is not stored but compared with the
  sync token. Another byte there puts the receiver out of sync; the sync token completes
  the event in the touch-down slot for the tag \<open>EVENT_TAG_TOUCH_ACTION_DOWN\<close> (unless
  \<open>DO_NOT_NEED_BASIC_TOUCH\<close> is defined) and in the general slot otherwise. The length
  byte occurs in none of the resulting states: it has no part in the size or in the
  destination.
\<close>

theorem header_decoding:
  assumes "constants_ok c" and "arrays_ok c s" and "receiver_reset c s"
  shows "receive_bytes c [b1] s =
           Inr (s\<lparr>sReceiveBuffer := (sReceiveBuffer s)[0 := b1], sReceiveBufferIndex := 1\<rparr>) \<and>
         receive_bytes c [b1, b2] s =
           Inr (s\<lparr>sReceiveBuffer := (sReceiveBuffer s)[0 := b1],
                  sReceiveBufferIndex := 0, sReceivedEventType := b2\<rparr>) \<and>
         (b2 = EVENT_TAG_NO_EVENT c \<longrightarrow>
            receiver_reset c (s\<lparr>sReceiveBuffer := (sReceiveBuffer s)[0 := b1],
                  sReceiveBufferIndex := 0, sReceivedEventType := b2\<rparr>)) \<and>
         (b2 \<noteq> EVENT_TAG_NO_EVENT c \<and>
          length P \<le> (if b2 < EVENT_TAG_FIRST_CALLBACK_ACTION_CODE c then 4
                        else RECEIVE_CALLBACK_DATA_SIZE c) \<longrightarrow>
            receive_bytes c (b1 # b2 # P) s =
              Inr (s\<lparr>sReceiveBuffer := P @ drop (length P) ((sReceiveBuffer s)[0 := b1]),
                     sReceiveBufferIndex := of_nat (length P), sReceivedEventType := b2\<rparr>)) \<and>
         (b2 \<noteq> EVENT_TAG_NO_EVENT c \<and>
          length P = (if b2 < EVENT_TAG_FIRST_CALLBACK_ACTION_CODE c then 4
                      else RECEIVE_CALLBACK_DATA_SIZE c) \<and>
          tByte \<noteq> SYNC_TOKEN c \<longrightarrow>
            receive_bytes c (b1 # b2 # P @ [tByte]) s =
              Inr (s\<lparr>sReceiveBuffer := P @ drop (length P) (sReceiveBuffer s),
                     sReceiveBufferOutOfSync := True, sReceivedEventType := b2\<rparr>)) \<and>
         (b2 \<noteq> EVENT_TAG_NO_EVENT c \<and>
          length P = (if b2 < EVENT_TAG_FIRST_CALLBACK_ACTION_CODE c then 4
                      else RECEIVE_CALLBACK_DATA_SIZE c) \<longrightarrow>
            receive_bytes c (b1 # b2 # P @ [SYNC_TOKEN c]) s =
              Inr (if \<not> DO_NOT_NEED_BASIC_TOUCH c \<and> b2 = EVENT_TAG_TOUCH_ACTION_DOWN c
                   then s\<lparr>sReceiveBuffer := P @ drop (length P) (sReceiveBuffer s),
                          remoteTouchDownEvent :=
                            \<lparr>EventType = (if allowTouchInterrupts s then EVENT_TAG_NO_EVENT c else b2),
                             ByteArray = P @ drop (length P) (ByteArray (remoteTouchDownEvent s))\<rparr>\<rparr>
                   else s\<lparr>sReceiveBuffer := P @ drop (length P) (sReceiveBuffer s),
                          remoteTouchEvent :=
                            \<lparr>EventType = (if allowTouchInterrupts s then EVENT_TAG_NO_EVENT c else b2),
                             ByteArray = P @ drop (length P) (ByteArray (remoteTouchEvent s))\<rparr>\<rparr>))"
proof (intro conjI impI)
  have size: "unat (tDataSize c b2) =
      (if b2 < EVENT_TAG_FIRST_CALLBACK_ACTION_CODE c then 4 else RECEIVE_CALLBACK_DATA_SIZE c)"
    using assms(1) by (simp add: unat_tDataSize RECEIVE_TOUCH_OR_DISPLAY_DATA_SIZE_def)
  show "receive_bytes c [b1] s =
           Inr (s\<lparr>sReceiveBuffer := (sReceiveBuffer s)[0 := b1], sReceiveBufferIndex := 1\<rparr>)"
    using assms(3) buffer_nonempty [OF assms(1,2)] by (rule first_byte)
  show "receive_bytes c [b1, b2] s =
           Inr (s\<lparr>sReceiveBuffer := (sReceiveBuffer s)[0 := b1],
                  sReceiveBufferIndex := 0, sReceivedEventType := b2\<rparr>)"
    using assms(3) buffer_nonempty [OF assms(1,2)] by (rule header_bytes)
  {
    assume "b2 = EVENT_TAG_NO_EVENT c"
    then show "receiver_reset c (s\<lparr>sReceiveBuffer := (sReceiveBuffer s)[0 := b1],
                  sReceiveBufferIndex := 0, sReceivedEventType := b2\<rparr>)"
      using assms(3) by (simp add: receiver_reset_def)
  }
  {
    assume "b2 \<noteq> EVENT_TAG_NO_EVENT c \<and>
          length P \<le> (if b2 < EVENT_TAG_FIRST_CALLBACK_ACTION_CODE c then 4
                        else RECEIVE_CALLBACK_DATA_SIZE c)"
    then have "b2 \<noteq> EVENT_TAG_NO_EVENT c" and "length P \<le> unat (tDataSize c b2)"
      by (simp_all add: size)
    then show "receive_bytes c (b1 # b2 # P) s =
              Inr (s\<lparr>sReceiveBuffer := P @ drop (length P) ((sReceiveBuffer s)[0 := b1]),
                     sReceiveBufferIndex := of_nat (length P), sReceivedEventType := b2\<rparr>)"
      using assms by (intro header_and_payload)
  }
  {
    assume h: "b2 \<noteq> EVENT_TAG_NO_EVENT c \<and>
          length P = (if b2 < EVENT_TAG_FIRST_CALLBACK_ACTION_CODE c then 4
                      else RECEIVE_CALLBACK_DATA_SIZE c) \<and>
          tByte \<noteq> SYNC_TOKEN c"
    then have ok: "payload_ok c b2 P"
      by (simp add: payload_ok_def RECEIVE_TOUCH_OR_DISPLAY_DATA_SIZE_def)
    from h have ne: "tByte \<noteq> SYNC_TOKEN c" by simp
    show "receive_bytes c (b1 # b2 # P @ [tByte]) s =
              Inr (s\<lparr>sReceiveBuffer := P @ drop (length P) (sReceiveBuffer s),
                     sReceiveBufferOutOfSync := True, sReceivedEventType := b2\<rparr>)"
      using assms ok ne by (rule frame_rejected)
  }
  {
    assume h: "b2 \<noteq> EVENT_TAG_NO_EVENT c \<and>
          length P = (if b2 < EVENT_TAG_FIRST_CALLBACK_ACTION_CODE c then 4
                      else RECEIVE_CALLBACK_DATA_SIZE c)"
    then have ok: "payload_ok c b2 P"
      by (simp add: payload_ok_def RECEIVE_TOUCH_OR_DISPLAY_DATA_SIZE_def)
    show "receive_bytes c (b1 # b2 # P @ [SYNC_TOKEN c]) s =
              Inr (if \<not> DO_NOT_NEED_BASIC_TOUCH c \<and> b2 = EVENT_TAG_TOUCH_ACTION_DOWN c
                   then s\<lparr>sReceiveBuffer := P @ drop (length P) (sReceiveBuffer s),
                          remoteTouchDownEvent :=
                            \<lparr>EventType = (if allowTouchInterrupts s then EVENT_TAG_NO_EVENT c else b2),
                             ByteArray = P @ drop (length P) (ByteArray (remoteTouchDownEvent s))\<rparr>\<rparr>
                   else s\<lparr>sReceiveBuffer := P @ drop (length P) (sReceiveBuffer s),
                          remoteTouchEvent :=
                            \<lparr>EventType = (if allowTouchInterrupts s then EVENT_TAG_NO_EVENT c else b2),
                             ByteArray = P @ drop (length P) (ByteArray (remoteTouchEvent s))\<rparr>\<rparr>)"
      using frame_delivered [OF assms ok, of b1]
      by (simp add: event_frame_def tRemoteTouchEventPtr_def)
  }
qed

theorem header_decoding_witness:
  "constants_ok avr_constants \<and> arrays_ok avr_constants (initial_receiver avr_constants) \<and>
   receiver_reset avr_constants (initial_receiver avr_constants) \<and>
   (0x01 :: uint8_t) \<noteq> EVENT_TAG_NO_EVENT avr_constants \<and>
   (0x01 :: uint8_t) < EVENT_TAG_FIRST_CALLBACK_ACTION_CODE avr_constants \<and>
   length [1, 2, 3, 4 :: uint8_t] = 4 \<and>
   (0x00 :: uint8_t) \<noteq> SYNC_TOKEN avr_constants \<and>
   receive_bytes avr_constants [6] (initial_receiver avr_constants) =
     Inr ((initial_receiver avr_constants)
            \<lparr>sReceiveBuffer := [6, 0, 0, 0, 0, 0, 0, 0, 0, 0, 0, 0], sReceiveBufferIndex := 1\<rparr>) \<and>
   receive_bytes avr_constants [6, 0x01] (initial_receiver avr_constants) =
     Inr ((initial_receiver avr_constants)
            \<lparr>sReceiveBuffer := [6, 0, 0, 0, 0, 0, 0, 0, 0, 0, 0, 0], sReceiveBufferIndex := 0,
              sReceivedEventType := 0x01\<rparr>) \<and>
   receive_bytes avr_constants [6, 0x01, 1, 2, 3, 4] (initial_receiver avr_constants) =
     Inr ((initial_receiver avr_constants)
            \<lparr>sReceiveBuffer := [1, 2, 3, 4, 0, 0, 0, 0, 0, 0, 0, 0], sReceiveBufferIndex := 4,
              sReceivedEventType := 0x01\<rparr>) \<and>
   receive_bytes avr_constants [6, 0x01, 1, 2, 3, 4, 0x00] (initial_receiver avr_constants) =
     Inr ((initial_receiver avr_constants)
            \<lparr>sReceiveBuffer := [1, 2, 3, 4, 0, 0, 0, 0, 0, 0, 0, 0],
              sReceiveBufferOutOfSync := True, sReceivedEventType := 0x01\<rparr>) \<and>
   receive_bytes avr_constants [6, 0x01, 1, 2, 3, 4, 0xA5] (initial_receiver avr_constants) =
     Inr ((initial_receiver avr_constants)
            \<lparr>sReceiveBuffer := [1, 2, 3, 4, 0, 0, 0, 0, 0, 0, 0, 0],
              remoteTouchEvent :=
                \<lparr>EventType = 0x01, ByteArray = [1, 2, 3, 4, 0, 0, 0, 0, 0, 0, 0, 0]\<rparr>\<rparr>)"
proof -
  have h1: "constants_ok avr_constants"
    and h2: "arrays_ok avr_constants (initial_receiver avr_constants)"
    and h3: "receiver_reset avr_constants (initial_receiver avr_constants)"
    by (simp_all add: receiver_eval)
  show ?thesis
    using h1 h2 h3 header_decoding [OF h1 h2 h3, of 6 "0x01" "[1, 2, 3, 4]" "0x00"]
    by (simp add: receiver_eval)
qed

subsection \<open>The index into the receive buffer\<close>

text \<open>
  Claim C9. The invariant \<open>receiver_ok\<close> holds of the initial state and is kept by every
  run of the interrupt routine on any sequence of bytes, none of which raises a fault; it
  is also kept when the application handles an event or sets \<open>allowTouchInterrupts\<close>. In
  a state that satisfies it the routine either leaves the receive buffer alone or stores
  the byte at the current index, which is then below the data size of the current event
  type; the index is never above that size, and the size is never above the
  \<open>RECEIVE_CALLBACK_DATA_SIZE\<close> bytes of the buffer.
\<close>

theorem receive_buffer_index_bound:
  assumes "constants_ok c"
  shows "receiver_ok c (initial_receiver c) \<and>
         (receiver_ok c s \<longrightarrow>
            (\<exists>s'. receive_bytes c bs s = Inr s' \<and> receiver_ok c s') \<and>
            (\<exists>s'. USART_RX_vect c tByte s = Inr s' \<and>
               (sReceiveBuffer s' = sReceiveBuffer s \<or>
                unat (sReceiveBufferIndex s) < unat (tDataSize c (sReceivedEventType s)) \<and>
                sReceiveBuffer s' = (sReceiveBuffer s)[unat (sReceiveBufferIndex s) := tByte])) \<and>
            unat (sReceiveBufferIndex s) \<le> unat (tDataSize c (sReceivedEventType s)) \<and>
            unat (tDataSize c (sReceivedEventType s)) \<le> RECEIVE_CALLBACK_DATA_SIZE c \<and>
            length (sReceiveBuffer s) = RECEIVE_CALLBACK_DATA_SIZE c \<and>
            receiver_ok c (assign p (handleEvent c (deref p s)) s) \<and>
            receiver_ok c (s\<lparr>allowTouchInterrupts := a\<rparr>))"
proof (intro conjI impI)
  show "receiver_ok c (initial_receiver c)" using assms by (rule receiver_ok_init)
next
  assume ok: "receiver_ok c s"
  show "\<exists>s'. receive_bytes c bs s = Inr s' \<and> receiver_ok c s'"
    using assms ok by (rule receiver_ok_run)
  show "\<exists>s'. USART_RX_vect c tByte s = Inr s' \<and>
               (sReceiveBuffer s' = sReceiveBuffer s \<or>
                unat (sReceiveBufferIndex s) < unat (tDataSize c (sReceivedEventType s)) \<and>
                sReceiveBuffer s' = (sReceiveBuffer s)[unat (sReceiveBufferIndex s) := tByte])"
    using receiver_ok_step [OF assms ok, of tByte] by blast
  show "unat (sReceiveBufferIndex s) \<le> unat (tDataSize c (sReceivedEventType s))"
    and "unat (tDataSize c (sReceivedEventType s)) \<le> RECEIVE_CALLBACK_DATA_SIZE c"
    and "length (sReceiveBuffer s) = RECEIVE_CALLBACK_DATA_SIZE c"
    using receiver_ok_bound [OF assms ok] by simp_all
  show "receiver_ok c (assign p (handleEvent c (deref p s)) s)"
    using ok by (cases p) (simp_all add: receiver_ok_def arrays_ok_def handleEvent_def)
  show "receiver_ok c (s\<lparr>allowTouchInterrupts := a\<rparr>)"
    using ok by (simp add: receiver_ok_def arrays_ok_def)
qed

theorem receive_buffer_index_bound_witness:
  "constants_ok avr_constants \<and> receiver_ok avr_constants (initial_receiver avr_constants) \<and>
   receive_bytes avr_constants [6, 0x21, 1, 2, 3, 4, 5, 6, 7, 8, 9, 10, 11, 12]
       (initial_receiver avr_constants) =
     Inr ((initial_receiver avr_constants)
            \<lparr>sReceiveBuffer := [1, 2, 3, 4, 5, 6, 7, 8, 9, 10, 11, 12], sReceiveBufferIndex := 12,
              sReceivedEventType := 0x21\<rparr>) \<and>
   receiver_ok avr_constants ((initial_receiver avr_constants)
            \<lparr>sReceiveBuffer := [1, 2, 3, 4, 5, 6, 7, 8, 9, 10, 11, 12], sReceiveBufferIndex := 12,
              sReceivedEventType := 0x21\<rparr>)"
proof -
  have h1: "constants_ok avr_constants"
    by (simp add: receiver_eval)
  show ?thesis
    using h1 receive_buffer_index_bound [OF h1, of "initial_receiver avr_constants"
        "[6, 0x21, 1, 2, 3, 4, 5, 6, 7, 8, 9, 10, 11, 12]" 0 RemoteTouchEvent False]
    by (simp add: receiver_eval)
qed

end
